theory Spec2Isabelle
  imports Complex_Main
begin

section \<open>Strings\<close>

text \<open>
  JavaScript strings are sequences of UTF-16 code units. They are modelled as
  \<^typ>\<open>string\<close>, whose characters are the code units U+0000 to U+00FF (\<open>of_char\<close> gives the
  number of a code unit).

  \<open>String.prototype.toLowerCase\<close> belongs to the platform, not to the component: the
  functions of the text-display effect take it as a parameter (\<open>lower\<close>). Where a definite
  lowering is needed, in the life cycle and in the examples, \<open>toLowerCase\<close> below is used.
  On the code units up to U+00FF the platform's function works unit by unit: the letters
  A to Z (65 to 90) and the letters U+00C0 to U+00DE (192 to 222) other than the
  multiplication sign U+00D7 (215) go to the unit 32 above, every other unit stays.
\<close>

definition toLowerChar :: "char \<Rightarrow> char" where
  "toLowerChar c =
     (let n = (of_char c :: nat) in
      if (65 \<le> n \<and> n \<le> 90) \<or> (192 \<le> n \<and> n \<le> 222 \<and> n \<noteq> 215) then char_of (n + 32)
      else c)"

definition toLowerCase :: "string \<Rightarrow> string" where
  "toLowerCase s = map toLowerChar s"

text \<open>
  Equality up to the case of letters, said without \<open>toLowerCase\<close>: \<open>case_pair a b\<close> holds when
  \<open>a\<close> is a capital letter among the code units up to U+00FF and \<open>b\<close> is its small letter;
  two strings are \<open>caseless\<close>ly equal when they have the same length and agree, position by
  position, up to such pairs.
\<close>

definition case_pair :: "char \<Rightarrow> char \<Rightarrow> bool" where
  "case_pair a b =
     (let m = (of_char a :: nat); n = (of_char b :: nat) in
      n = m + 32 \<and>
      ((65 \<le> m \<and> m \<le> 90) \<or> (192 \<le> m \<and> m \<le> 214) \<or> (216 \<le> m \<and> m \<le> 222)))"

definition same_letter :: "char \<Rightarrow> char \<Rightarrow> bool" where
  "same_letter a b = (a = b \<or> case_pair a b \<or> case_pair b a)"

definition caseless :: "string \<Rightarrow> string \<Rightarrow> bool" where
  "caseless u v = list_all2 same_letter u v"

text \<open>
  \<open>s.split(sep)\<close> for a separator of one character: the pieces between the occurrences
  of \<open>sep\<close>, in order, empty pieces included; the empty string gives one empty piece.
\<close>

fun js_split :: "char \<Rightarrow> string \<Rightarrow> string list" where
  "js_split sep [] = [[]]"
| "js_split sep (c # cs) =
     (if c = sep then [] # js_split sep cs
      else (c # hd (js_split sep cs)) # tl (js_split sep cs))"

text \<open>\<open>xs.join(sep)\<close>.\<close>

fun js_join :: "string \<Rightarrow> string list \<Rightarrow> string" where
  "js_join sep [] = []"
| "js_join sep [x] = x"
| "js_join sep (x # y # ys) = x @ sep @ js_join sep (y # ys)"

text \<open>
  The reading of "whitespace-delimited tokens" that the specification uses: the maximal
  runs of characters that are not white space (space, tab, line feed, vertical tab, form
  feed, carriage return). This definition follows the specification's words and is
  compared with \<^const>\<open>js_split\<close> below.
\<close>

definition is_ws :: "char \<Rightarrow> bool" where
  "is_ws c = (c \<in> set [CHR '' '', CHR 0x09, CHR 0x0A, CHR 0x0B, CHR 0x0C, CHR 0x0D])"

fun ws_split :: "string \<Rightarrow> string \<Rightarrow> string list" where
  "ws_split w [] = (if w = [] then [] else [w])"
| "ws_split w (c # cs) =
     (if is_ws c then (if w = [] then ws_split [] cs else w # ws_split [] cs)
      else ws_split (w @ [c]) cs)"

definition ws_tokens :: "string \<Rightarrow> string list" where
  "ws_tokens s = ws_split [] s"


section \<open>Configuration\<close>

text \<open>
  The component's parameters after destructuring (lines 5 to 15 of FallingText.jsx). The
  field \<open>text\<close> of the source is \<open>text_prop\<close> here.
\<close>

record props =
  text_prop :: string
  highlightWords :: "string list"
  highlightClass :: string
  trigger :: string
  backgroundColor :: string
  wireframes :: bool
  gravity :: real
  mouseConstraintStiffness :: real
  fontSize :: string

text \<open>
  What the host passes: every property may be left out (\<open>undefined\<close>, modelled as
  \<open>None\<close>). A destructuring default applies exactly when the property is \<open>undefined\<close>.
\<close>

record host_props =
  text_arg :: "string option"
  highlightWords_arg :: "string list option"
  highlightClass_arg :: "string option"
  trigger_arg :: "string option"
  backgroundColor_arg :: "string option"
  wireframes_arg :: "bool option"
  gravity_arg :: "real option"
  mouseConstraintStiffness_arg :: "real option"
  fontSize_arg :: "string option"

definition orDefault :: "'a option \<Rightarrow> 'a \<Rightarrow> 'a" where
  "orDefault a d = (case a of None \<Rightarrow> d | Some v \<Rightarrow> v)"

definition FallingText_props :: "host_props \<Rightarrow> props" where
  "FallingText_props a =
     \<lparr> text_prop = orDefault (text_arg a) '''',
       highlightWords = orDefault (highlightWords_arg a) [],
       highlightClass = orDefault (highlightClass_arg a) ''highlighted'',
       trigger = orDefault (trigger_arg a) ''auto'',
       backgroundColor = orDefault (backgroundColor_arg a) ''transparent'',
       wireframes = orDefault (wireframes_arg a) False,
       gravity = orDefault (gravity_arg a) 1,
       mouseConstraintStiffness = orDefault (mouseConstraintStiffness_arg a) (2 / 10),
       fontSize = orDefault (fontSize_arg a) ''1rem'' \<rparr>"

definition omitted :: host_props where
  "omitted =
     \<lparr> text_arg = None, highlightWords_arg = None, highlightClass_arg = None,
       trigger_arg = None, backgroundColor_arg = None, wireframes_arg = None,
       gravity_arg = None, mouseConstraintStiffness_arg = None, fontSize_arg = None \<rparr>"

definition supplied :: "props \<Rightarrow> host_props" where
  "supplied p =
     \<lparr> text_arg = Some (text_prop p), highlightWords_arg = Some (highlightWords p),
       highlightClass_arg = Some (highlightClass p), trigger_arg = Some (trigger p),
       backgroundColor_arg = Some (backgroundColor p), wireframes_arg = Some (wireframes p),
       gravity_arg = Some (gravity p),
       mouseConstraintStiffness_arg = Some (mouseConstraintStiffness p),
       fontSize_arg = Some (fontSize p) \<rparr>"

text \<open>
  The specification's reading: a configuration is complete when the host gave every field.
\<close>

definition all_fields_given :: "host_props \<Rightarrow> bool" where
  "all_fields_given a =
     (text_arg a \<noteq> None \<and> highlightWords_arg a \<noteq> None \<and> highlightClass_arg a \<noteq> None \<and>
      trigger_arg a \<noteq> None \<and> backgroundColor_arg a \<noteq> None \<and> wireframes_arg a \<noteq> None \<and>
      gravity_arg a \<noteq> None \<and> mouseConstraintStiffness_arg a \<noteq> None \<and> fontSize_arg a \<noteq> None)"


section \<open>Token rendering (the text-display effect)\<close>

text \<open>
  Lines 40 to 42: \<open>highlightWords.some((hw) => word.toLowerCase() === hw.toLowerCase())\<close>,
  with the platform's \<open>toLowerCase\<close> as the parameter \<open>lower\<close>. The definition does not depend
  on what a string is.
\<close>

definition isHighlighted :: "('s \<Rightarrow> 't) \<Rightarrow> 's list \<Rightarrow> 's \<Rightarrow> bool" where
  "isHighlighted lower hws word = list_ex (\<lambda>hw. lower word = lower hw) hws"

text \<open>A \<open>span\<close> element of the rendered markup.\<close>

record span =
  className :: string
  textContent :: string

definition wordSpan :: "(string \<Rightarrow> string) \<Rightarrow> string list \<Rightarrow> string \<Rightarrow> string \<Rightarrow> span" where
  "wordSpan lower hws hc word =
     \<lparr> className = ''word '' @ (if isHighlighted lower hws word then hc else ''''),
       textContent = word \<rparr>"

definition spanHTML :: "span \<Rightarrow> string" where
  "spanHTML sp =
     ''<span class='' @ [CHR 0x22] @ className sp @ [CHR 0x22] @ ''>'' @ textContent sp
       @ ''</span>''"

definition words :: "props \<Rightarrow> string list" where
  "words p = js_split CHR '' '' (text_prop p)"

text \<open>
  The pieces and the highlight class are written into the markup as they are, without
  escaping (lines 43 to 47), and \<open>textRef.current.innerHTML = newHTML\<close> has the browser parse
  the result. \<open>markup_free\<close>: neither the text nor the highlight class holds a character
  that the parser does not take literally (\<open><\<close>, \<open>>\<close>, \<open>&\<close>, the double quote, U+0000 and the
  carriage return).
\<close>

definition html_special :: "char \<Rightarrow> bool" where
  "html_special c =
     (c \<in> set [CHR ''<'', CHR ''>'', CHR ''&'', CHR 0x22, CHR 0x00, CHR 0x0D])"

definition markup_free :: "props \<Rightarrow> bool" where
  "markup_free p =
     (\<not> list_ex html_special (text_prop p) \<and> \<not> list_ex html_special (highlightClass p))"

text \<open>
  The elements under the text node after the assignment: one \<open>span\<close> of class \<open>word\<close> for
  each piece, with the piece as its text. This is what the browser builds for
  \<open>markup_free\<close> properties. With other properties the elements can differ in number and in
  content (a highlight class that closes the attribute and opens another \<open>span\<close> gives two
  elements of class \<open>word\<close> for one piece); the theorems on the bodies of the pieces and on
  emphasis are stated for \<open>markup_free\<close> properties.
\<close>

definition wordSpans :: "(string \<Rightarrow> string) \<Rightarrow> props \<Rightarrow> span list" where
  "wordSpans lower p = map (wordSpan lower (highlightWords p) (highlightClass p)) (words p)"

definition newHTML :: "(string \<Rightarrow> string) \<Rightarrow> props \<Rightarrow> string" where
  "newHTML lower p = js_join '' '' (map spanHTML (wordSpans lower p))"

text \<open>
  The text-display effect (lines 30 to 53). \<open>None\<close>: it returned at line 31 because
  \<open>textRef.current\<close> is null. \<open>Some spans\<close>: it wrote the markup and called
  \<open>setIsInitialized(true)\<close>.
\<close>

definition textEffect :: "(string \<Rightarrow> string) \<Rightarrow> props \<Rightarrow> bool \<Rightarrow> span list option" where
  "textEffect lower p textRef = (if \<not> textRef then None else Some (wordSpans lower p))"


section \<open>The physics effect\<close>

text \<open>
  JavaScript numbers are modelled as \<^typ>\<open>real\<close>: the arithmetic of the source
  (\<open>width / 2\<close>, \<open>height + 25\<close>, \<open>(Math.random() - 0.5) * 5\<close>) is taken exactly, without
  the rounding of IEEE doubles.
\<close>

record rect =
  rect_left :: real
  rect_top :: real
  rect_width :: real
  rect_height :: real

text \<open>
  A rigid body as \<open>Bodies.rectangle(x, y, w, h, options)\<close> makes it. An option the source
  does not pass is \<open>None\<close> (the engine's default). A new body is at rest.
\<close>

record body =
  position_x :: real
  position_y :: real
  body_width :: real
  body_height :: real
  isStatic :: bool
  restitution :: "real option"
  frictionAir :: "real option"
  friction :: "real option"
  velocity_x :: real
  velocity_y :: real
  angularVelocity :: real

text \<open>\<open>Bodies.rectangle(x, y, w, h, boundaryOptions)\<close> (lines 130 to 138).\<close>

definition boundary :: "real \<Rightarrow> real \<Rightarrow> real \<Rightarrow> real \<Rightarrow> body" where
  "boundary x y w h =
     \<lparr> position_x = x, position_y = y, body_width = w, body_height = h, isStatic = True,
       restitution = None, frictionAir = None, friction = None,
       velocity_x = 0, velocity_y = 0, angularVelocity = 0 \<rparr>"

definition floorBody :: "real \<Rightarrow> real \<Rightarrow> body" where
  "floorBody width height = boundary (width / 2) (height + 25) width 50"

definition leftWall :: "real \<Rightarrow> real \<Rightarrow> body" where
  "leftWall width height = boundary (- 25) (height / 2) 50 height"

definition rightWall :: "real \<Rightarrow> real \<Rightarrow> body" where
  "rightWall width height = boundary (width + 25) (height / 2) 50 height"

definition ceilingBody :: "real \<Rightarrow> real \<Rightarrow> body" where
  "ceilingBody width height = boundary (width / 2) (- 25) width 50"

text \<open>
  The body of one word (lines 145 to 168): \<open>r\<close> is the word's measured rectangle,
  \<open>r1\<close> and \<open>r2\<close> are the two values of \<open>Math.random()\<close>, in the order they are drawn.
\<close>

definition wordBody :: "rect \<Rightarrow> rect \<Rightarrow> real \<Rightarrow> real \<Rightarrow> body" where
  "wordBody containerRect r r1 r2 =
     \<lparr> position_x = rect_left r - rect_left containerRect + rect_width r / 2,
       position_y = rect_top r - rect_top containerRect + rect_height r / 2,
       body_width = rect_width r, body_height = rect_height r, isStatic = False,
       restitution = Some (8 / 10), frictionAir = Some (1 / 100), friction = Some (2 / 10),
       velocity_x = (r1 - 5 / 10) * 5, velocity_y = 0,
       angularVelocity = (r2 - 5 / 10) * (5 / 100) \<rparr>"

text \<open>An entry \<open>{ elem, body }\<close> of \<open>wordBodies\<close>; the element is the index of its span.\<close>

record word_body =
  elem :: nat
  wbody :: body

text \<open>
  \<open>[...wordSpans].map(...)\<close> (lines 144 to 171): the spans in document order, each drawing
  two random numbers. \<open>random\<close> is the sequence of values that \<open>Math.random()\<close>
  returns, \<open>k\<close> the number already drawn, \<open>i\<close> the index of the next span.
\<close>

fun makeWordBodies :: "rect \<Rightarrow> (nat \<Rightarrow> real) \<Rightarrow> nat \<Rightarrow> nat \<Rightarrow> rect list \<Rightarrow> word_body list" where
  "makeWordBodies containerRect random k i [] = []"
| "makeWordBodies containerRect random k i (r # rs) =
     \<lparr> elem = i, wbody = wordBody containerRect r (random k) (random (Suc k)) \<rparr>
       # makeWordBodies containerRect random (k + 2) (Suc i) rs"

text \<open>What \<open>World.add\<close> receives.\<close>

datatype world_item = BodyItem body | ConstraintItem real

text \<open>
  The objects of one run of the effect, which its cleanup function closes over.
  \<open>canvasAttached\<close>: \<open>render.canvas\<close> is a child of the canvas container.
\<close>

record session =
  gravity_y :: real
  render_width :: real
  render_height :: real
  render_background :: string
  render_wireframes :: bool
  canvasAttached :: bool
  world :: "world_item list"
  wordBodies :: "word_body list"
  runner_enabled :: bool

text \<open>The calls that allocate something, in the order the effect makes them.\<close>

datatype resource =
  Engine_create | Render_create | Bodies_rectangle body | Mouse_create
  | MouseConstraint_create | Runner_create

datatype error = TypeError | NotFoundError

text \<open>
  How a run of the effect ends: \<open>Returned\<close> is a bare \<open>return\<close> (no cleanup function),
  \<open>Threw\<close> an exception, \<open>Started\<close> the return of the cleanup function.
\<close>

datatype outcome = Returned | Threw error | Started session

text \<open>
  What the effect reads from the page: the container's rectangle (\<open>None\<close> when
  \<open>containerRef.current\<close> is null), the rectangles of the \<open>.word\<close> spans under the text
  node in document order (\<open>None\<close> when \<open>textRef.current\<close> is null), and whether
  \<open>canvasContainerRef.current\<close> is an element.
\<close>

record refs =
  containerRef :: "rect option"
  textRef :: "rect list option"
  canvasContainerRef :: bool

text \<open>
  The physics effect (lines 82 to 222) up to the return of the cleanup function. It gives
  the allocating calls made and the outcome. The inline styles written to the spans and
  the frame loop \<open>updateLoop\<close> allocate nothing and are left out.
\<close>

definition physicsEffect ::
  "props \<Rightarrow> bool \<Rightarrow> bool \<Rightarrow> refs \<Rightarrow> (nat \<Rightarrow> real) \<Rightarrow> nat \<Rightarrow> resource list \<times> outcome" where
  "physicsEffect p effectStarted isInitialized d random k =
     (if \<not> effectStarted \<or> \<not> isInitialized then ([], Returned)
      else case containerRef d of
        None \<Rightarrow> ([], Returned)
      | Some containerRect \<Rightarrow>
          let width = rect_width containerRect; height = rect_height containerRect in
          if width \<le> 0 \<or> height \<le> 0 then ([], Returned)
          else
            let bounds = [floorBody width height, leftWall width height,
                          rightWall width height, ceilingBody width height];
                made = [Engine_create, Render_create] @ map Bodies_rectangle bounds
            in (case textRef d of
                  None \<Rightarrow> (made, Threw TypeError)
                | Some rects \<Rightarrow>
                    let wbs = makeWordBodies containerRect random k 0 rects in
                    (made @ map (Bodies_rectangle \<circ> wbody) wbs
                       @ [Mouse_create, MouseConstraint_create, Runner_create],
                     Started
                       \<lparr> gravity_y = gravity p, render_width = width,
                         render_height = height,
                         render_background = backgroundColor p,
                         render_wireframes = wireframes p,
                         canvasAttached = canvasContainerRef d,
                         world = map BodyItem bounds
                           @ [ConstraintItem (mouseConstraintStiffness p)]
                           @ map (BodyItem \<circ> wbody) wbs,
                         wordBodies = wbs, runner_enabled = True \<rparr>)))"

text \<open>
  The cleanup function (lines 224 to 235). \<open>ref\<close>: \<open>canvasContainerRef.current\<close> is an
  element when it runs; \<open>render.canvas\<close> is always set. \<open>removeChild\<close> throws
  \<open>NotFoundError\<close> for a node that is not a child; the other calls (\<open>Render.stop\<close>,
  \<open>Runner.stop\<close>, \<open>World.clear\<close>, \<open>Engine.clear\<close>) do not throw. \<open>Render.stop\<close> and
  \<open>Runner.stop\<close> cancel the pending frame requests; nothing writes \<open>runner.enabled\<close>,
  which stays as \<open>Runner.create\<close> set it.
\<close>

definition cleanup :: "bool \<Rightarrow> session \<Rightarrow> error + session" where
  "cleanup ref sess =
     (if ref then
        (if canvasAttached sess
         then Inr (sess\<lparr>canvasAttached := False, world := []\<rparr>)
         else Inl NotFoundError)
      else Inr (sess\<lparr>world := []\<rparr>))"

text \<open>
  The same cleanup function called twice in a row, on the objects it closes over; an
  exception of the first call ends the sequence. \<open>ref\<close> and \<open>ref'\<close>: the canvas
  container's ref holds an element at the first and at the second call.
\<close>

definition cleanup_twice :: "bool \<Rightarrow> bool \<Rightarrow> session \<Rightarrow> error + session" where
  "cleanup_twice ref ref' sess =
     (case cleanup ref sess of
        Inl e \<Rightarrow> Inl e
      | Inr sess' \<Rightarrow> cleanup ref' sess')"


section \<open>The component and its life cycle\<close>

text \<open>
  The two remaining effects and the event handlers, then the rules by which React runs
  them: an effect runs after a render when one of its dependencies differs from the last
  run, its previous cleanup function first; a state setter called by an effect or a
  handler takes effect in the next render.
\<close>

text \<open>The trigger effect (lines 56 to 79), as a function of what its closure reads.\<close>

datatype trigger_action = NoAction | StartEffect | Observe

definition triggerEffect :: "string \<Rightarrow> bool \<Rightarrow> bool \<Rightarrow> trigger_action" where
  "triggerEffect trg isInitialized container =
     (if \<not> isInitialized then NoAction
      else if trg = ''auto'' then StartEffect
      else if trg = ''scroll'' \<and> container then Observe
      else NoAction)"

record entry =
  isIntersecting :: bool
  intersectionRatio :: real

text \<open>
  Modelled from the spec: the browser's \<open>IntersectionObserver\<close> is not part of the
  repository. With threshold \<open>t\<close> it reports the observed element as intersecting once at
  least the fraction \<open>t\<close> of it is visible ("threshold 0.1 (10% visible triggers
  activation)").
\<close>

definition observe :: "real \<Rightarrow> real \<Rightarrow> entry" where
  "observe t ratio = \<lparr> isIntersecting = (t \<le> ratio), intersectionRatio = ratio \<rparr>"

type_synonym text_deps = "string \<times> string list \<times> string"
type_synonym trigger_deps = "string \<times> bool"
type_synonym physics_deps = "bool \<times> bool \<times> real \<times> bool \<times> string \<times> real"

definition textDepsOf :: "props \<Rightarrow> text_deps" where
  "textDepsOf p = (text_prop p, highlightWords p, highlightClass p)"

definition triggerDepsOf :: "props \<Rightarrow> bool \<Rightarrow> trigger_deps" where
  "triggerDepsOf p init = (trigger p, init)"

definition physicsDepsOf :: "props \<Rightarrow> bool \<Rightarrow> bool \<Rightarrow> physics_deps" where
  "physicsDepsOf p started init =
     (started, init, gravity p, wireframes p, backgroundColor p, mouseConstraintStiffness p)"

text \<open>
  A mounted instance: the current properties, the two state variables, for each effect
  the dependencies of its last run, the spans under the text node, the observer
  (\<open>observing\<close>: connected; \<open>observerCleanup\<close>: the trigger effect returned a cleanup
  function), the session whose cleanup function is registered, all allocating calls so
  far, the number of random numbers drawn, and an exception that escaped.
\<close>

record comp =
  cur_props :: props
  effectStarted :: bool
  isInitialized :: bool
  textDeps :: "text_deps option"
  triggerDeps :: "trigger_deps option"
  physicsDeps :: "physics_deps option"
  innerHTML :: "span list"
  observing :: bool
  observerCleanup :: bool
  running :: "session option"
  created :: "resource list"
  drawn :: nat
  thrown :: "error option"

text \<open>The layout and the random numbers, which the component does not control.\<close>

record env =
  containerRect :: rect
  wordRect :: "nat \<Rightarrow> rect"
  random :: "nat \<Rightarrow> real"

definition initial :: "props \<Rightarrow> comp" where
  "initial p =
     \<lparr> cur_props = p, effectStarted = False, isInitialized = False, textDeps = None,
       triggerDeps = None, physicsDeps = None, innerHTML = [], observing = False,
       observerCleanup = False, running = None, created = [], drawn = 0, thrown = None \<rparr>"

text \<open>While the instance is mounted its three refs hold their elements.\<close>

definition refsOf :: "env \<Rightarrow> comp \<Rightarrow> refs" where
  "refsOf env s =
     \<lparr> containerRef = Some (containerRect env),
       textRef = Some (map (wordRect env) [0..<length (innerHTML s)]),
       canvasContainerRef = True \<rparr>"

definition runTextEffect :: "props \<Rightarrow> comp \<Rightarrow> comp" where
  "runTextEffect p s =
     (case textEffect toLowerCase p True of
        None \<Rightarrow> s\<lparr>textDeps := Some (textDepsOf p)\<rparr>
      | Some spans \<Rightarrow>
          s\<lparr>innerHTML := spans, isInitialized := True, textDeps := Some (textDepsOf p)\<rparr>)"

definition runTriggerEffect :: "props \<Rightarrow> bool \<Rightarrow> comp \<Rightarrow> comp" where
  "runTriggerEffect p init s =
     (case triggerEffect (trigger p) init True of
        NoAction \<Rightarrow> s\<lparr>triggerDeps := Some (triggerDepsOf p init)\<rparr>
      | StartEffect \<Rightarrow> s\<lparr>effectStarted := True, triggerDeps := Some (triggerDepsOf p init)\<rparr>
      | Observe \<Rightarrow>
          s\<lparr>observing := True, observerCleanup := True,
            triggerDeps := Some (triggerDepsOf p init)\<rparr>)"

text \<open>The cleanup function of the trigger effect: \<open>observer.disconnect()\<close>.\<close>

definition triggerCleanup :: "comp \<Rightarrow> comp" where
  "triggerCleanup s =
     (if observerCleanup s then s\<lparr>observing := False, observerCleanup := False\<rparr> else s)"

text \<open>The observer's callback (lines 67 to 73).\<close>

definition observerCallback :: "entry \<Rightarrow> comp \<Rightarrow> comp" where
  "observerCallback e s =
     (if isIntersecting e then s\<lparr>effectStarted := True, observing := False\<rparr> else s)"

text \<open>
  Teardown: React calls the registered cleanup function of the physics effect, if there is
  one, and forgets it; a cleanup function is called once. \<open>ref\<close>: the canvas container's
  ref still holds its element (it does when the effect is about to run again; at unmount
  React may have cleared it).
\<close>

definition teardown :: "bool \<Rightarrow> comp \<Rightarrow> comp" where
  "teardown ref s =
     (case running s of
        None \<Rightarrow> s
      | Some sess \<Rightarrow>
          (case cleanup ref sess of
             Inl e \<Rightarrow> s\<lparr>running := None, thrown := Some e\<rparr>
           | Inr _ \<Rightarrow> s\<lparr>running := None\<rparr>))"

definition runPhysicsEffect :: "env \<Rightarrow> props \<Rightarrow> bool \<Rightarrow> bool \<Rightarrow> comp \<Rightarrow> comp" where
  "runPhysicsEffect env p started init s =
     (case physicsEffect p started init (refsOf env s) (random env) (drawn s) of
        (made, Returned) \<Rightarrow>
          s\<lparr>created := created s @ made,
            physicsDeps := Some (physicsDepsOf p started init)\<rparr>
      | (made, Threw e) \<Rightarrow>
          s\<lparr>created := created s @ made, thrown := Some e,
            physicsDeps := Some (physicsDepsOf p started init)\<rparr>
      | (made, Started sess) \<Rightarrow>
          s\<lparr>created := created s @ made, running := Some sess,
            drawn := drawn s + 2 * length (wordBodies sess),
            physicsDeps := Some (physicsDepsOf p started init)\<rparr>)"

text \<open>
  One render and its commit. The effects read the properties and the state of this
  render (\<open>p\<close>, \<open>started\<close>, \<open>init\<close>); the cleanup functions of the effects that run again
  are called first, then the effects in the order of the source. Dependencies are compared
  by value. React compares the array \<open>highlightWords\<close> by identity, so the text-display
  effect may also run with dependencies of equal value; such a run writes the same spans
  and sets the same flag (\<open>runTextEffect_again\<close> below).
\<close>

definition commit :: "env \<Rightarrow> comp \<Rightarrow> comp" where
  "commit env s =
     (if thrown s \<noteq> None then s
      else
        let p = cur_props s; started = effectStarted s; init = isInitialized s;
            doText = (textDeps s \<noteq> Some (textDepsOf p));
            doTrigger = (triggerDeps s \<noteq> Some (triggerDepsOf p init));
            doPhysics = (physicsDeps s \<noteq> Some (physicsDepsOf p started init));
            s1 = (if doTrigger then triggerCleanup s else s);
            s2 = (if doPhysics then teardown True s1 else s1)
        in if thrown s2 \<noteq> None then s2
           else
             let s3 = (if doText then runTextEffect p s2 else s2);
                 s4 = (if doTrigger then runTriggerEffect p init s3 else s3)
             in if doPhysics then runPhysicsEffect env p started init s4 else s4)"

text \<open>\<open>handleTrigger\<close> (lines 246 to 251).\<close>

definition handleTrigger :: "comp \<Rightarrow> comp" where
  "handleTrigger s =
     (if \<not> effectStarted s \<and>
         (trigger (cur_props s) = ''click'' \<or> trigger (cur_props s) = ''hover'')
      then s\<lparr>effectStarted := True\<rparr> else s)"

text \<open>
  What reaches the instance from outside: a click or a mouse-over on the container (the
  handler is bound only for the matching trigger, lines 257 and 258), a notification of
  the observer with the visible fraction, and a render with new properties.
\<close>

datatype event = Click | MouseOver | Intersection real | Rerender props

fun handler :: "event \<Rightarrow> comp \<Rightarrow> comp" where
  "handler Click s = (if trigger (cur_props s) = ''click'' then handleTrigger s else s)"
| "handler MouseOver s = (if trigger (cur_props s) = ''hover'' then handleTrigger s else s)"
| "handler (Intersection r) s =
     (if observing s then observerCallback (observe (1 / 10) r) s else s)"
| "handler (Rerender p) s = s\<lparr>cur_props := p\<rparr>"

text \<open>
  React renders again as long as state has changed. Three commits always reach a state in
  which no effect is due (\<open>commit_settle\<close> below).
\<close>

definition settle :: "env \<Rightarrow> comp \<Rightarrow> comp" where
  "settle env s = commit env (commit env (commit env s))"

definition due :: "comp \<Rightarrow> bool" where
  "due s =
     (thrown s = None \<and>
      (textDeps s \<noteq> Some (textDepsOf (cur_props s)) \<or>
       triggerDeps s \<noteq> Some (triggerDepsOf (cur_props s) (isInitialized s)) \<or>
       physicsDeps s \<noteq>
         Some (physicsDepsOf (cur_props s) (effectStarted s) (isInitialized s))))"

definition step :: "env \<Rightarrow> event \<Rightarrow> comp \<Rightarrow> comp" where
  "step env e s = (if thrown s \<noteq> None then s else settle env (handler e s))"

definition mount :: "props \<Rightarrow> env \<Rightarrow> comp" where
  "mount p env = settle env (initial p)"

fun run :: "env \<Rightarrow> event list \<Rightarrow> comp \<Rightarrow> comp" where
  "run env [] s = s"
| "run env (e # es) s = run env es (step env e s)"

text \<open>
  Every state an instance can be in: events and commits in any order, each commit under
  any layout.
\<close>

inductive reachable :: "comp \<Rightarrow> bool" where
  r_initial: "reachable (initial p)"
| r_commit: "reachable s \<Longrightarrow> reachable (commit env s)"
| r_event: "reachable s \<Longrightarrow> reachable (handler e s)"

text \<open>
  The states of an instance that has only ever been given \<open>markup_free\<close> properties, at
  its mount and at every later render.
\<close>

fun plain_event :: "event \<Rightarrow> bool" where
  "plain_event (Rerender p) = markup_free p"
| "plain_event Click = True"
| "plain_event MouseOver = True"
| "plain_event (Intersection r) = True"

inductive plain_reachable :: "comp \<Rightarrow> bool" where
  p_initial: "markup_free p \<Longrightarrow> plain_reachable (initial p)"
| p_commit: "plain_reachable s \<Longrightarrow> plain_reachable (commit env s)"
| p_event: "plain_reachable s \<Longrightarrow> plain_event e \<Longrightarrow> plain_reachable (handler e s)"


section \<open>Notions used in the statements\<close>

text \<open>The bodies among the allocating calls, and among the contents of a world.\<close>

definition bodiesOf :: "resource list \<Rightarrow> body list" where
  "bodiesOf rs = concat (map (\<lambda>r. case r of Bodies_rectangle b \<Rightarrow> [b] | _ \<Rightarrow> []) rs)"

definition worldBodies :: "world_item list \<Rightarrow> body list" where
  "worldBodies ws = concat (map (\<lambda>w. case w of BodyItem b \<Rightarrow> [b] | _ \<Rightarrow> []) ws)"

text \<open>
  The edges of a body at rest, in the coordinates of the container (x to the right, y
  downwards, the container from (0, 0) to (width, height)).
\<close>

definition body_left :: "body \<Rightarrow> real" where
  "body_left b = position_x b - body_width b / 2"

definition body_right :: "body \<Rightarrow> real" where
  "body_right b = position_x b + body_width b / 2"

definition body_top :: "body \<Rightarrow> real" where
  "body_top b = position_y b - body_height b / 2"

definition body_bottom :: "body \<Rightarrow> real" where
  "body_bottom b = position_y b + body_height b / 2"

text \<open>A layout whose container has no width or no height.\<close>

definition degenerate :: "env \<Rightarrow> bool" where
  "degenerate env =
     (rect_width (containerRect env) \<le> 0 \<or> rect_height (containerRect env) \<le> 0)"

text \<open>The event that a manual trigger mode binds a handler to.\<close>

definition matching :: "string \<Rightarrow> event \<Rightarrow> bool" where
  "matching trg e = (trg = ''click'' \<and> e = Click \<or> trg = ''hover'' \<and> e = MouseOver)"

text \<open>The spans that the text-display effect writes, from its dependencies.\<close>

definition spansOf :: "text_deps \<Rightarrow> span list" where
  "spansOf d =
     (case d of (t, hws, hc) \<Rightarrow> map (wordSpan toLowerCase hws hc) (js_split CHR '' '' t))"

text \<open>
  What holds in every reachable state: the text node holds the spans of the last run of
  the text-display effect, and the instance is initialised exactly when that effect has
  run; no exception has escaped; the canvas of a registered session is attached and the
  session has a body for at least one span; nothing was allocated before both flags were
  set.
\<close>

definition markup_ok :: "comp \<Rightarrow> bool" where
  "markup_ok s =
     (isInitialized s = (textDeps s \<noteq> None) \<and>
      innerHTML s = (case textDeps s of None \<Rightarrow> [] | Some d \<Rightarrow> spansOf d))"

definition wf_comp :: "comp \<Rightarrow> bool" where
  "wf_comp s =
     (markup_ok s \<and> thrown s = None \<and>
      (case running s of
         None \<Rightarrow> True
       | Some sess \<Rightarrow> canvasAttached sess \<and> wordBodies sess \<noteq> []) \<and>
      ((created s \<noteq> [] \<or> running s \<noteq> None) \<longrightarrow> effectStarted s \<and> isInitialized s))"

text \<open>
  The state of an instance with the trigger "auto" before the commit in which the physics
  effect first runs with both flags set.
\<close>

definition armed :: "props \<Rightarrow> comp" where
  "armed p =
     (initial p)\<lparr>innerHTML := wordSpans toLowerCase p, isInitialized := True,
       effectStarted := True, textDeps := Some (textDepsOf p),
       triggerDeps := Some (triggerDepsOf p True),
       physicsDeps := Some (physicsDepsOf p False True)\<rparr>"


section \<open>Example inputs\<close>

text \<open>
  The configuration of the specification's example, with the trigger and the numbers that
  App.js passes, and variants of it.
\<close>

definition example_props :: props where
  "example_props =
     \<lparr> text_prop = ''Alpha Seo Gamma'', highlightWords = [''SEO'', ''seo''],
       highlightClass = ''highlighted'', trigger = ''hover'',
       backgroundColor = ''transparent'', wireframes = False, gravity = 56 / 100,
       mouseConstraintStiffness = 9 / 10, fontSize = ''2rem'' \<rparr>"

definition auto_props :: props where
  "auto_props = example_props\<lparr>trigger := ''auto''\<rparr>"

definition scroll_props :: props where
  "scroll_props = example_props\<lparr>trigger := ''scroll''\<rparr>"

text \<open>A text with two spaces between its two words.\<close>

definition spaced_props :: props where
  "spaced_props = example_props\<lparr>text_prop := ''a  b'', trigger := ''auto''\<rparr>"

text \<open>
  A container of 300 by 100 pixels, words 8 by 12 pixels, and random numbers that
  alternate between 0.9 and 0.1.
\<close>

definition example_random :: "nat \<Rightarrow> real" where
  "example_random n = (if even n then 9 / 10 else 1 / 10)"

definition example_env :: env where
  "example_env =
     \<lparr> containerRect =
         \<lparr> rect_left = 0, rect_top = 0, rect_width = 300, rect_height = 100 \<rparr>,
       wordRect =
         (\<lambda>i. \<lparr> rect_left = 10 * real i, rect_top = 0, rect_width = 8, rect_height = 12 \<rparr>),
       random = example_random \<rparr>"

text \<open>The same layout with a container of height zero.\<close>

definition flat_env :: env where
  "flat_env =
     example_env\<lparr>containerRect :=
       \<lparr> rect_left = 0, rect_top = 0, rect_width = 300, rect_height = 0 \<rparr>\<rparr>"

text \<open>What the physics effect reads from the page when three words are laid out.\<close>

definition example_refs :: refs where
  "example_refs =
     \<lparr> containerRef = Some (containerRect example_env),
       textRef = Some (map (wordRect example_env) [0, 1, 2]),
       canvasContainerRef = True \<rparr>"


section \<open>Token rendering: highlighting\<close>

lemma isHighlighted_iff:
  "isHighlighted lower hws w \<longleftrightarrow> (\<exists>hw\<in>set hws. lower w = lower hw)"
  by (simp add: isHighlighted_def list_ex_iff)

lemma isHighlighted_image: "isHighlighted lower hws w \<longleftrightarrow> lower w \<in> lower ` set hws"
  by (auto simp: isHighlighted_iff)

lemma length_wordSpans: "length (wordSpans lower p) = length (words p)"
  by (simp add: wordSpans_def)

lemma words_example: "words example_props = [''Alpha'', ''Seo'', ''Gamma'']"
  by (simp add: words_def example_props_def)

lemma markup_free_example: "markup_free example_props"
  by (simp add: markup_free_def html_special_def example_props_def)

text \<open>
  \<open>toLowerCase\<close> identifies exactly the strings that are equal up to the case of letters.
\<close>

lemma of_char_toLowerChar:
  "(of_char (toLowerChar c) :: nat) =
     (let n = of_char c in
      if (65 \<le> n \<and> n \<le> 90) \<or> (192 \<le> n \<and> n \<le> 222 \<and> n \<noteq> 215) then n + 32 else n)"
  by (auto simp add: toLowerChar_def Let_def take_bit_eq_mod)

lemma toLowerChar_eq_iff: "toLowerChar a = toLowerChar b \<longleftrightarrow> same_letter a b"
proof -
  have "toLowerChar a = toLowerChar b \<longleftrightarrow>
        (of_char (toLowerChar a) :: nat) = of_char (toLowerChar b)"
    by simp
  also have "\<dots> \<longleftrightarrow> same_letter a b"
    unfolding of_char_toLowerChar same_letter_def case_pair_def Let_def
    using of_char_eq_iff [of a b, where ?'a = nat]
    by auto
  finally show ?thesis .
qed

lemma toLowerCase_eq_iff: "toLowerCase u = toLowerCase v \<longleftrightarrow> caseless u v"
  unfolding toLowerCase_def caseless_def
proof (induction u arbitrary: v)
  case Nil
  then show ?case by auto
next
  case (Cons a u)
  then show ?case by (cases v) (simp_all add: toLowerChar_eq_iff)
qed

lemma map_lower_caseless:
  assumes "\<And>u v. caseless u v \<Longrightarrow> lower u = lower v" and "list_all2 caseless ws ws'"
  shows "map lower ws = map lower ws'"
  using assms(2) by (induction rule: list_all2_induct) (simp_all add: assms(1))

text \<open>
  C2. A token is highlighted if and only if its lower-case form equals the lower-case
  form of some entry of \<open>highlightWords\<close>, whatever the platform's \<open>toLowerCase\<close> is
  (\<open>lower\<close>, over any type of strings). For \<open>markup_free\<close> properties and a highlight class
  that is not the empty string (which would mark nothing), the \<open>i\<close>-th span carries the
  \<open>i\<close>-th piece of the text, and it carries the highlight class exactly when that piece is
  highlighted. The casing of neither side matters: for a lowering that gives strings
  that are equal up to the case of letters the same lower-case form, a token that equals
  an entry up to case is highlighted, and recasing the token or the entries does not
  change the answer. For \<open>toLowerCase\<close> of the code units up to U+00FF, a token is
  highlighted exactly when it equals some entry up to the case of letters.
\<close>

theorem emphasized_iff_lowercase_match:
  "(isHighlighted lower hws w \<longleftrightarrow> (\<exists>hw\<in>set hws. lower w = lower hw)) \<and>
   (i < length (words p) \<and> markup_free p \<and> highlightClass p \<noteq> [] \<longrightarrow>
      textContent (wordSpans lw p ! i) = words p ! i \<and>
      (className (wordSpans lw p ! i) = ''word '' @ highlightClass p \<longleftrightarrow>
         (\<exists>hw\<in>set (highlightWords p). lw (words p ! i) = lw hw))) \<and>
   ((\<forall>u v. caseless u v \<longrightarrow> lw u = lw v) \<longrightarrow>
      (e \<in> set ws \<and> caseless t e \<longrightarrow> isHighlighted lw ws t) \<and>
      (caseless t t' \<longrightarrow> isHighlighted lw ws t = isHighlighted lw ws t') \<and>
      (list_all2 caseless ws ws' \<longrightarrow> isHighlighted lw ws t = isHighlighted lw ws' t)) \<and>
   (isHighlighted toLowerCase ws t \<longleftrightarrow> (\<exists>hw\<in>set ws. caseless t hw))"
proof -
  have 1: "isHighlighted lower hws w \<longleftrightarrow> (\<exists>hw\<in>set hws. lower w = lower hw)"
    by (rule isHighlighted_iff)
  have 2: "textContent (wordSpans lw p ! i) = words p ! i \<and>
           (className (wordSpans lw p ! i) = ''word '' @ highlightClass p \<longleftrightarrow>
              (\<exists>hw\<in>set (highlightWords p). lw (words p ! i) = lw hw))"
    if "i < length (words p)" "highlightClass p \<noteq> []"
    using that by (simp add: wordSpans_def wordSpan_def isHighlighted_iff)
  have 3: "(e \<in> set ws \<and> caseless t e \<longrightarrow> isHighlighted lw ws t) \<and>
           (caseless t t' \<longrightarrow> isHighlighted lw ws t = isHighlighted lw ws t') \<and>
           (list_all2 caseless ws ws' \<longrightarrow> isHighlighted lw ws t = isHighlighted lw ws' t)"
    if f: "\<forall>u v. caseless u v \<longrightarrow> lw u = lw v"
  proof (intro conjI impI)
    assume "e \<in> set ws \<and> caseless t e"
    with f have "e \<in> set ws" "lw t = lw e" by blast+
    then show "isHighlighted lw ws t" unfolding isHighlighted_iff by blast
  next
    assume "caseless t t'"
    with f have "lw t = lw t'" by blast
    then show "isHighlighted lw ws t = isHighlighted lw ws t'" by (simp add: isHighlighted_iff)
  next
    assume "list_all2 caseless ws ws'"
    with f have "map lw ws = map lw ws'" by (intro map_lower_caseless) blast+
    then have "set (map lw ws) = set (map lw ws')" by (rule arg_cong)
    then have "lw ` set ws = lw ` set ws'" by simp
    then show "isHighlighted lw ws t = isHighlighted lw ws' t"
      by (simp add: isHighlighted_image)
  qed
  have 4: "isHighlighted toLowerCase ws t \<longleftrightarrow> (\<exists>hw\<in>set ws. caseless t hw)"
    by (simp add: isHighlighted_iff toLowerCase_eq_iff)
  from 1 2 3 4 show ?thesis by blast
qed

text \<open>
  The specification's example: with "SEO" and "seo" in the list the token "Seo" is
  highlighted, as "sEO" would be and as it is for the list "seo", "Seo"; "Alpha" is not.
  The capital E with an acute accent (U+00C9) is highlighted by its small letter (U+00E9).
\<close>

theorem emphasized_iff_lowercase_match_witness:
  "1 < length (words example_props) \<and> markup_free example_props \<and>
   highlightClass example_props \<noteq> [] \<and>
   words example_props ! 1 = ''Seo'' \<and>
   ''SEO'' \<in> set (highlightWords example_props) \<and> caseless ''Seo'' ''SEO'' \<and>
   caseless ''Seo'' ''sEO'' \<and> list_all2 caseless (highlightWords example_props) [''seo'', ''Seo''] \<and>
   isHighlighted toLowerCase (highlightWords example_props) ''Seo'' \<and>
   className (wordSpans toLowerCase example_props ! 1) = ''word highlighted'' \<and>
   isHighlighted toLowerCase (highlightWords example_props) ''sEO'' \<and>
   isHighlighted toLowerCase [''seo'', ''Seo''] ''Seo'' \<and>
   \<not> isHighlighted toLowerCase (highlightWords example_props) ''Alpha'' \<and>
   isHighlighted toLowerCase [[CHR 0xE9]] [CHR 0xC9] \<and>
   \<not> isHighlighted toLowerCase [[CHR 0xF7]] [CHR 0xD7]"
proof -
  have len: "1 < length (words example_props)" by (simp add: words_example)
  have w1: "words example_props ! 1 = ''Seo''" by (simp add: words_example)
  have hc: "highlightClass example_props = ''highlighted''" by (simp add: example_props_def)
  have hws: "highlightWords example_props = [''SEO'', ''seo'']"
    by (simp add: example_props_def)
  have f: "\<forall>u v. caseless u v \<longrightarrow> toLowerCase u = toLowerCase v"
    by (simp add: toLowerCase_eq_iff)
  have c1: "caseless ''Seo'' ''SEO''"
    by (simp add: caseless_def same_letter_def case_pair_def)
  have c2: "caseless ''Seo'' ''sEO''"
    by (simp add: caseless_def same_letter_def case_pair_def)
  have c3: "list_all2 caseless [''SEO'', ''seo''] [''seo'', ''Seo'']"
    by (simp add: caseless_def same_letter_def case_pair_def)
  have c4: "\<exists>hw\<in>set [[CHR 0xE9]]. caseless [CHR 0xC9] hw"
    by (simp add: caseless_def same_letter_def case_pair_def)
  have c5: "\<not> (\<exists>hw\<in>set [[CHR 0xF7]]. caseless [CHR 0xD7] hw)"
    by (simp add: caseless_def same_letter_def case_pair_def)
  have c6: "\<not> (\<exists>hw\<in>set [''SEO'', ''seo'']. caseless ''Alpha'' hw)"
    by (simp add: caseless_def)
  note th = emphasized_iff_lowercase_match
    [where lower = toLowerCase and hws = "[''SEO'', ''seo'']" and w = "''Seo''"
       and i = 1 and p = example_props and lw = toLowerCase
       and e = "''SEO''" and ws = "[''SEO'', ''seo'']" and t = "''Seo''"
       and t' = "''sEO''" and ws' = "[''seo'', ''Seo'']"]
  from th have a: "i < length (words example_props) \<and> markup_free example_props \<and>
      highlightClass example_props \<noteq> [] \<longrightarrow>
      textContent (wordSpans toLowerCase example_props ! i) = words example_props ! i \<and>
      (className (wordSpans toLowerCase example_props ! i)
         = ''word '' @ highlightClass example_props \<longleftrightarrow>
       (\<exists>hw\<in>set (highlightWords example_props).
          toLowerCase (words example_props ! i) = toLowerCase hw))" if "i = 1" for i
    using that by (elim conjE) simp
  from th have b: "isHighlighted toLowerCase [''SEO'', ''seo''] ''Seo''"
    using f c1 by (elim conjE) simp
  from th have c: "isHighlighted toLowerCase [''SEO'', ''seo''] ''Seo''
                   = isHighlighted toLowerCase [''SEO'', ''seo''] ''sEO''"
    using f c2 by (elim conjE) simp
  from th have d: "isHighlighted toLowerCase [''SEO'', ''seo''] ''Seo''
                   = isHighlighted toLowerCase [''seo'', ''Seo''] ''Seo''"
    using f c3 by (elim conjE) simp
  have e: "isHighlighted toLowerCase [[CHR 0xE9]] [CHR 0xC9]"
    using emphasized_iff_lowercase_match
            [where ws = "[[CHR 0xE9]]" and t = "[CHR 0xC9]", THEN conjunct2, THEN conjunct2, THEN conjunct2] c4
    by simp
  have g: "\<not> isHighlighted toLowerCase [[CHR 0xF7]] [CHR 0xD7]"
    using emphasized_iff_lowercase_match
            [where ws = "[[CHR 0xF7]]" and t = "[CHR 0xD7]", THEN conjunct2, THEN conjunct2, THEN conjunct2] c5
    by simp
  have h: "\<not> isHighlighted toLowerCase [''SEO'', ''seo''] ''Alpha''"
    using emphasized_iff_lowercase_match
            [where ws = "[''SEO'', ''seo'']" and t = "''Alpha''", THEN conjunct2, THEN conjunct2, THEN conjunct2] c6
    by simp
  have cls: "className (wordSpans toLowerCase example_props ! 1) = ''word highlighted''"
    using a [of 1] len markup_free_example b
    by (simp add: hc hws words_example isHighlighted_iff)
  show ?thesis
    using len markup_free_example w1 c1 c2 c3 b c d e g h cls
    by (simp add: hc hws)
qed


section \<open>Configuration: defaults\<close>

text \<open>
  C9, as the specification states it, fails: a host that gives no field at all is served,
  and the component fills in a value for each of the nine fields.
\<close>

theorem fields_required_counterexample:
  "\<not> all_fields_given omitted \<and>
   FallingText_props omitted =
     \<lparr> text_prop = '''', highlightWords = [], highlightClass = ''highlighted'',
       trigger = ''auto'', backgroundColor = ''transparent'', wireframes = False,
       gravity = 1, mouseConstraintStiffness = 2 / 10, fontSize = ''1rem'' \<rparr>"
  by (simp add: all_fields_given_def omitted_def FallingText_props_def orDefault_def)

text \<open>
  C9, amended. Every field is optional. A field that the host leaves out takes its
  default: the empty text, no highlight words, the class "highlighted", the trigger
  "auto", the background "transparent", no wireframes, gravity 1, stiffness 0.2 and font
  size "1rem". A field that the host gives is used as given.
\<close>

theorem FallingText_props_defaults:
  "text_prop (FallingText_props a) = (case text_arg a of None \<Rightarrow> '''' | Some v \<Rightarrow> v) \<and>
   highlightWords (FallingText_props a) =
     (case highlightWords_arg a of None \<Rightarrow> [] | Some v \<Rightarrow> v) \<and>
   highlightClass (FallingText_props a) =
     (case highlightClass_arg a of None \<Rightarrow> ''highlighted'' | Some v \<Rightarrow> v) \<and>
   trigger (FallingText_props a) = (case trigger_arg a of None \<Rightarrow> ''auto'' | Some v \<Rightarrow> v) \<and>
   backgroundColor (FallingText_props a) =
     (case backgroundColor_arg a of None \<Rightarrow> ''transparent'' | Some v \<Rightarrow> v) \<and>
   wireframes (FallingText_props a) =
     (case wireframes_arg a of None \<Rightarrow> False | Some v \<Rightarrow> v) \<and>
   gravity (FallingText_props a) = (case gravity_arg a of None \<Rightarrow> 1 | Some v \<Rightarrow> v) \<and>
   mouseConstraintStiffness (FallingText_props a) =
     (case mouseConstraintStiffness_arg a of None \<Rightarrow> 2 / 10 | Some v \<Rightarrow> v) \<and>
   fontSize (FallingText_props a) =
     (case fontSize_arg a of None \<Rightarrow> ''1rem'' | Some v \<Rightarrow> v) \<and>
   FallingText_props (supplied p) = p"
  by (simp add: FallingText_props_def orDefault_def supplied_def split: option.splits)


section \<open>The physics effect: what a run allocates\<close>

text \<open>
  The word bodies are made in document order, one per span, none of them static; a run
  that starts a session adds to the world exactly the bodies it created.
\<close>

lemma bodiesOf_simps [simp]:
  "bodiesOf [] = []"
  "bodiesOf (Bodies_rectangle b # rs) = b # bodiesOf rs"
  "bodiesOf (Engine_create # rs) = bodiesOf rs"
  "bodiesOf (Render_create # rs) = bodiesOf rs"
  "bodiesOf (Mouse_create # rs) = bodiesOf rs"
  "bodiesOf (MouseConstraint_create # rs) = bodiesOf rs"
  "bodiesOf (Runner_create # rs) = bodiesOf rs"
  "bodiesOf (xs @ ys) = bodiesOf xs @ bodiesOf ys"
  by (simp_all add: bodiesOf_def)

lemma bodiesOf_map [simp]: "bodiesOf (map (Bodies_rectangle \<circ> f) xs) = map f xs"
  by (induction xs) simp_all

lemma worldBodies_simps [simp]:
  "worldBodies [] = []"
  "worldBodies (BodyItem b # ws) = b # worldBodies ws"
  "worldBodies (ConstraintItem c # ws) = worldBodies ws"
  "worldBodies (xs @ ys) = worldBodies xs @ worldBodies ys"
  by (simp_all add: worldBodies_def)

lemma worldBodies_map [simp]: "worldBodies (map (BodyItem \<circ> f) xs) = map f xs"
  by (induction xs) simp_all

lemma length_makeWordBodies [simp]:
  "length (makeWordBodies c rnd k j rects) = length rects"
  by (induction rects arbitrary: k j) simp_all

lemma nth_makeWordBodies:
  "i < length rects \<Longrightarrow>
     makeWordBodies c rnd k j rects ! i =
       \<lparr> elem = j + i, wbody = wordBody c (rects ! i) (rnd (k + 2 * i)) (rnd (Suc (k + 2 * i))) \<rparr>"
proof (induction rects arbitrary: k j i)
  case Nil
  then show ?case by simp
next
  case (Cons r rs)
  show ?case
  proof (cases i)
    case 0
    then show ?thesis by simp
  next
    case (Suc n)
    with Cons.prems have "n < length rs" by simp
    from Cons.IH [OF this, of "k + 2" "Suc j"] Suc show ?thesis by simp
  qed
qed

lemma makeWordBodies_dynamic:
  "wb \<in> set (makeWordBodies c rnd k j rects) \<Longrightarrow> \<not> isStatic (wbody wb)"
  by (induction rects arbitrary: k j) (auto simp: wordBody_def)

lemma filter_static_words [simp]:
  "filter isStatic (map wbody (makeWordBodies c rnd k j rects)) = []"
  by (auto simp: filter_empty_conv dest: makeWordBodies_dynamic)

lemma physicsEffect_degenerate:
  "containerRef d = Some c \<Longrightarrow> rect_width c \<le> 0 \<or> rect_height c \<le> 0 \<Longrightarrow>
     physicsEffect p st ini d rnd k = ([], Returned)"
  by (auto simp: physicsEffect_def)

lemma physicsEffect_started:
  "containerRef d = Some c \<Longrightarrow> 0 < rect_width c \<Longrightarrow> 0 < rect_height c \<Longrightarrow>
   textRef d = Some rects \<Longrightarrow>
     physicsEffect p True True d rnd k =
       ([Engine_create, Render_create,
         Bodies_rectangle (floorBody (rect_width c) (rect_height c)),
         Bodies_rectangle (leftWall (rect_width c) (rect_height c)),
         Bodies_rectangle (rightWall (rect_width c) (rect_height c)),
         Bodies_rectangle (ceilingBody (rect_width c) (rect_height c))]
        @ map (Bodies_rectangle \<circ> wbody) (makeWordBodies c rnd k 0 rects)
        @ [Mouse_create, MouseConstraint_create, Runner_create],
        Started
          \<lparr> gravity_y = gravity p, render_width = rect_width c,
            render_height = rect_height c, render_background = backgroundColor p,
            render_wireframes = wireframes p, canvasAttached = canvasContainerRef d,
            world =
              [BodyItem (floorBody (rect_width c) (rect_height c)),
               BodyItem (leftWall (rect_width c) (rect_height c)),
               BodyItem (rightWall (rect_width c) (rect_height c)),
               BodyItem (ceilingBody (rect_width c) (rect_height c)),
               ConstraintItem (mouseConstraintStiffness p)]
              @ map (BodyItem \<circ> wbody) (makeWordBodies c rnd k 0 rects),
            wordBodies = makeWordBodies c rnd k 0 rects, runner_enabled = True \<rparr>)"
  by (simp add: physicsEffect_def Let_def)

lemma physicsEffect_Started_cases:
  assumes "physicsEffect p st ini d rnd k = (made, Started sess)"
  obtains c rects where "st" "ini" "containerRef d = Some c" "0 < rect_width c"
    "0 < rect_height c" "textRef d = Some rects"
  using assms
  by (auto simp: physicsEffect_def Let_def split: if_splits option.splits)


section \<open>The life cycle: commits\<close>

text \<open>
  What one commit does to each part of the state, and that three commits settle: after
  them no effect is due, so a further commit changes nothing.
\<close>

lemma runTextEffect_eq:
  "runTextEffect p s =
     s\<lparr>innerHTML := wordSpans toLowerCase p, isInitialized := True, textDeps := Some (textDepsOf p)\<rparr>"
  by (simp add: runTextEffect_def textEffect_def)

lemma runTriggerEffect_eq:
  "runTriggerEffect p init s =
     (if \<not> init then s\<lparr>triggerDeps := Some (triggerDepsOf p init)\<rparr>
      else if trigger p = ''auto''
        then s\<lparr>effectStarted := True, triggerDeps := Some (triggerDepsOf p init)\<rparr>
      else if trigger p = ''scroll''
        then s\<lparr>observing := True, observerCleanup := True,
               triggerDeps := Some (triggerDepsOf p init)\<rparr>
      else s\<lparr>triggerDeps := Some (triggerDepsOf p init)\<rparr>)"
  by (simp add: runTriggerEffect_def triggerEffect_def)

lemma teardown_None [simp]: "running s = None \<Longrightarrow> teardown b s = s"
  by (simp add: teardown_def)

lemma teardown_fields [simp]:
  "cur_props (teardown b s) = cur_props s"
  "effectStarted (teardown b s) = effectStarted s"
  "isInitialized (teardown b s) = isInitialized s"
  "textDeps (teardown b s) = textDeps s"
  "triggerDeps (teardown b s) = triggerDeps s"
  "physicsDeps (teardown b s) = physicsDeps s"
  "innerHTML (teardown b s) = innerHTML s"
  "observing (teardown b s) = observing s"
  "observerCleanup (teardown b s) = observerCleanup s"
  "created (teardown b s) = created s"
  "drawn (teardown b s) = drawn s"
  "running (teardown b s) = None"
  by (simp_all add: teardown_def split: option.splits sum.splits)

lemma teardown_thrown:
  "thrown (teardown b s) =
     (case running s of
        None \<Rightarrow> thrown s
      | Some sess \<Rightarrow> if b \<and> \<not> canvasAttached sess then Some NotFoundError else thrown s)"
  by (simp add: teardown_def cleanup_def split: option.splits sum.splits)

lemma triggerCleanup_fields [simp]:
  "cur_props (triggerCleanup s) = cur_props s"
  "effectStarted (triggerCleanup s) = effectStarted s"
  "isInitialized (triggerCleanup s) = isInitialized s"
  "textDeps (triggerCleanup s) = textDeps s"
  "triggerDeps (triggerCleanup s) = triggerDeps s"
  "physicsDeps (triggerCleanup s) = physicsDeps s"
  "innerHTML (triggerCleanup s) = innerHTML s"
  "running (triggerCleanup s) = running s"
  "created (triggerCleanup s) = created s"
  "drawn (triggerCleanup s) = drawn s"
  "thrown (triggerCleanup s) = thrown s"
  by (simp_all add: triggerCleanup_def)

lemma runPhysicsEffect_fields [simp]:
  "cur_props (runPhysicsEffect env p st ini s) = cur_props s"
  "effectStarted (runPhysicsEffect env p st ini s) = effectStarted s"
  "isInitialized (runPhysicsEffect env p st ini s) = isInitialized s"
  "textDeps (runPhysicsEffect env p st ini s) = textDeps s"
  "triggerDeps (runPhysicsEffect env p st ini s) = triggerDeps s"
  "physicsDeps (runPhysicsEffect env p st ini s) = Some (physicsDepsOf p st ini)"
  "innerHTML (runPhysicsEffect env p st ini s) = innerHTML s"
  "observing (runPhysicsEffect env p st ini s) = observing s"
  "observerCleanup (runPhysicsEffect env p st ini s) = observerCleanup s"
  by (simp_all add: runPhysicsEffect_def split: prod.splits outcome.splits)

lemma commit_thrown_id: "thrown s \<noteq> None \<Longrightarrow> commit env s = s"
  by (simp add: commit_def)

lemma commit_cur_props [simp]: "cur_props (commit env s) = cur_props s"
  by (simp add: commit_def Let_def runTextEffect_eq runTriggerEffect_eq)

lemma commit_effectStarted_mono: "effectStarted s \<Longrightarrow> effectStarted (commit env s)"
  by (simp add: commit_def Let_def runTextEffect_eq runTriggerEffect_eq)

lemma commit_isInitialized_mono: "isInitialized s \<Longrightarrow> isInitialized (commit env s)"
  by (simp add: commit_def Let_def runTextEffect_eq runTriggerEffect_eq)

lemma not_due_commit: "\<not> due s \<Longrightarrow> commit env s = s"
  by (auto simp: due_def commit_def Let_def)

lemma commit_deps:
  "thrown (commit env s) = None \<Longrightarrow>
     textDeps (commit env s) = Some (textDepsOf (cur_props s)) \<and>
     triggerDeps (commit env s) = Some (triggerDepsOf (cur_props s) (isInitialized s)) \<and>
     physicsDeps (commit env s) =
       Some (physicsDepsOf (cur_props s) (effectStarted s) (isInitialized s))"
  by (auto simp: commit_def Let_def runTextEffect_eq runTriggerEffect_eq split: if_splits)

lemma commit_isInitialized:
  "textDeps s = Some (textDepsOf (cur_props s)) \<Longrightarrow>
     isInitialized (commit env s) = isInitialized s"
  by (simp add: commit_def Let_def runTextEffect_eq runTriggerEffect_eq)

lemma commit_effectStarted:
  "triggerDeps s = Some (triggerDepsOf (cur_props s) (isInitialized s)) \<Longrightarrow>
     effectStarted (commit env s) = effectStarted s"
  by (simp add: commit_def Let_def runTextEffect_eq runTriggerEffect_eq)

lemma settle_not_due: "\<not> due (settle env s)"
proof -
  define s1 where "s1 = commit env s"
  define s2 where "s2 = commit env s1"
  define s3 where "s3 = commit env s2"
  have s3: "settle env s = s3" by (simp add: settle_def s1_def s2_def s3_def)
  show ?thesis
  proof (cases "thrown s3 = None")
    case False
    then show ?thesis by (simp add: s3 due_def)
  next
    case True
    have t2: "thrown s2 = None"
    proof (rule ccontr)
      assume "thrown s2 \<noteq> None"
      then have "s3 = s2" unfolding s3_def by (rule commit_thrown_id)
      with True \<open>thrown s2 \<noteq> None\<close> show False by simp
    qed
    have t1: "thrown s1 = None"
    proof (rule ccontr)
      assume "thrown s1 \<noteq> None"
      then have "s2 = s1" unfolding s2_def by (rule commit_thrown_id)
      with t2 \<open>thrown s1 \<noteq> None\<close> show False by simp
    qed
    have p1: "cur_props s1 = cur_props s" and p2: "cur_props s2 = cur_props s"
      and p3: "cur_props s3 = cur_props s"
      by (simp_all add: s1_def s2_def s3_def)
    from commit_deps [of env s] t1
    have d1: "textDeps s1 = Some (textDepsOf (cur_props s))" by (simp add: s1_def)
    from commit_deps [of env s1] t2
    have d2: "textDeps s2 = Some (textDepsOf (cur_props s))"
      "triggerDeps s2 = Some (triggerDepsOf (cur_props s) (isInitialized s1))"
      by (simp_all add: s2_def p1)
    from commit_deps [of env s2] True
    have d3: "textDeps s3 = Some (textDepsOf (cur_props s))"
      "triggerDeps s3 = Some (triggerDepsOf (cur_props s) (isInitialized s2))"
      "physicsDeps s3 = Some (physicsDepsOf (cur_props s) (effectStarted s2) (isInitialized s2))"
      by (simp_all add: s3_def p2)
    have i2: "isInitialized s2 = isInitialized s1"
      unfolding s2_def using d1 p1 by (simp add: commit_isInitialized)
    have i3: "isInitialized s3 = isInitialized s2"
      unfolding s3_def using d2 p2 by (simp add: commit_isInitialized)
    have e3: "effectStarted s3 = effectStarted s2"
      unfolding s3_def using d2 p2 i2 by (simp add: commit_effectStarted)
    show ?thesis
      unfolding s3 by (simp add: due_def d3 p3 i3 e3)
  qed
qed

lemma commit_settle: "commit env' (settle env s) = settle env s"
  by (rule not_due_commit) (rule settle_not_due)

lemma runPhysicsEffect_returned:
  "\<not> (st \<and> ini \<and> 0 < rect_width (containerRect env) \<and> 0 < rect_height (containerRect env)) \<Longrightarrow>
     runPhysicsEffect env p st ini s = s\<lparr>physicsDeps := Some (physicsDepsOf p st ini)\<rparr>"
  by (auto simp: runPhysicsEffect_def physicsEffect_def refsOf_def Let_def)

lemma runPhysicsEffect_started:
  assumes "st" "ini" "0 < rect_width (containerRect env)" "0 < rect_height (containerRect env)"
  shows "\<exists>made sess.
           physicsEffect p st ini (refsOf env s) (random env) (drawn s) = (made, Started sess) \<and>
           made \<noteq> [] \<and> canvasAttached sess \<and>
           wordBodies sess =
             makeWordBodies (containerRect env) (random env) (drawn s) 0
               (map (wordRect env) [0..<length (innerHTML s)]) \<and>
           runPhysicsEffect env p st ini s =
             s\<lparr>created := created s @ made, running := Some sess,
               drawn := drawn s + 2 * length (innerHTML s),
               physicsDeps := Some (physicsDepsOf p st ini)\<rparr>"
  using assms
  by (simp add: runPhysicsEffect_def physicsEffect_def refsOf_def Let_def)


section \<open>The life cycle: what every reachable state satisfies\<close>

text \<open>
  \<open>wf_comp\<close> holds initially and is kept by every cleanup, effect and handler, hence
  in every reachable state.
\<close>

lemma js_split_not_Nil [simp]: "js_split sep s \<noteq> []"
  by (cases s) simp_all

lemma wordSpans_textDeps: "wordSpans toLowerCase p = spansOf (textDepsOf p)"
  by (simp add: wordSpans_def words_def textDepsOf_def spansOf_def)

lemma spansOf_not_Nil [simp]: "spansOf d \<noteq> []"
  by (simp add: spansOf_def split: prod.splits)

lemma runTextEffect_again:
  "markup_ok s \<Longrightarrow> textDeps s = Some (textDepsOf p) \<Longrightarrow> runTextEffect p s = s"
  by (simp add: runTextEffect_eq markup_ok_def wordSpans_textDeps)

lemma wf_initial: "wf_comp (initial p)"
  by (simp add: wf_comp_def markup_ok_def initial_def)

lemma wf_markup: "wf_comp s \<Longrightarrow> isInitialized s \<Longrightarrow> innerHTML s \<noteq> []"
  by (auto simp: wf_comp_def markup_ok_def split: option.splits)

lemma wf_triggerCleanup: "wf_comp s \<Longrightarrow> wf_comp (triggerCleanup s)"
  by (auto simp: wf_comp_def markup_ok_def triggerCleanup_def)

lemma wf_teardown: "wf_comp s \<Longrightarrow> wf_comp (teardown True s)"
  by (auto simp: wf_comp_def markup_ok_def teardown_thrown split: option.splits)

lemma wf_runTextEffect: "wf_comp s \<Longrightarrow> wf_comp (runTextEffect p s)"
  by (auto simp: wf_comp_def markup_ok_def runTextEffect_eq wordSpans_textDeps)

lemma wf_runTriggerEffect: "wf_comp s \<Longrightarrow> wf_comp (runTriggerEffect p init s)"
  by (auto simp: wf_comp_def markup_ok_def runTriggerEffect_eq)

lemma wf_runPhysicsEffect:
  assumes "wf_comp s" "running s = None" "st \<longrightarrow> effectStarted s" "ini \<longrightarrow> isInitialized s"
  shows "wf_comp (runPhysicsEffect env p st ini s)"
proof (cases "st \<and> ini \<and> 0 < rect_width (containerRect env) \<and> 0 < rect_height (containerRect env)")
  case False
  then have "runPhysicsEffect env p st ini s = s\<lparr>physicsDeps := Some (physicsDepsOf p st ini)\<rparr>"
    by (rule runPhysicsEffect_returned)
  with assms(1) show ?thesis by (auto simp: wf_comp_def markup_ok_def)
next
  case True
  then obtain made sess where
    r: "canvasAttached sess"
      "wordBodies sess =
         makeWordBodies (containerRect env) (random env) (drawn s) 0
           (map (wordRect env) [0..<length (innerHTML s)])"
      "runPhysicsEffect env p st ini s =
         s\<lparr>created := created s @ made, running := Some sess,
           drawn := drawn s + 2 * length (innerHTML s),
           physicsDeps := Some (physicsDepsOf p st ini)\<rparr>"
    using runPhysicsEffect_started [of st ini env p s] by blast
  from True assms have fl: "effectStarted s" "isInitialized s" by simp_all
  with assms(1) have "innerHTML s \<noteq> []" by (simp add: wf_markup)
  then have "length (wordBodies sess) \<noteq> 0" unfolding r(2) by simp
  then have "wordBodies sess \<noteq> []" by simp
  with assms(1) r(1) fl show ?thesis
    unfolding r(3) by (auto simp: wf_comp_def markup_ok_def)
qed

lemma wf_thrown: "wf_comp s \<Longrightarrow> thrown s = None"
  by (simp add: wf_comp_def)

lemma wf_commit: "wf_comp s \<Longrightarrow> wf_comp (commit env s)"
proof -
  assume i: "wf_comp s"
  define p where "p = cur_props s"
  define doText where "doText = (textDeps s \<noteq> Some (textDepsOf p))"
  define doTrigger where "doTrigger = (triggerDeps s \<noteq> Some (triggerDepsOf p (isInitialized s)))"
  define doPhysics where
    "doPhysics = (physicsDeps s \<noteq> Some (physicsDepsOf p (effectStarted s) (isInitialized s)))"
  define s1 where "s1 = (if doTrigger then triggerCleanup s else s)"
  define s2 where "s2 = (if doPhysics then teardown True s1 else s1)"
  define s3 where "s3 = (if doText then runTextEffect p s2 else s2)"
  define s4 where "s4 = (if doTrigger then runTriggerEffect p (isInitialized s) s3 else s3)"
  have i1: "wf_comp s1" using i by (simp add: s1_def wf_triggerCleanup)
  have i2: "wf_comp s2" using i1 by (simp add: s2_def wf_teardown)
  have i3: "wf_comp s3" using i2 by (simp add: s3_def wf_runTextEffect)
  have i4: "wf_comp s4" using i3 by (simp add: s4_def wf_runTriggerEffect)
  have "commit env s =
          (if thrown s2 \<noteq> None then s2
           else if doPhysics
             then runPhysicsEffect env p (effectStarted s) (isInitialized s) s4
             else s4)"
    using wf_thrown [OF i]
    by (simp add: commit_def Let_def p_def doText_def doTrigger_def doPhysics_def s1_def
        s2_def s3_def s4_def)
  then have c: "commit env s =
             (if doPhysics then runPhysicsEffect env p (effectStarted s) (isInitialized s) s4
              else s4)"
    by (simp add: wf_thrown [OF i2])
  show ?thesis
  proof (cases doPhysics)
    case False
    with c i4 show ?thesis by simp
  next
    case True
    have r: "running s4 = None"
      using True
      by (simp add: s4_def s3_def s2_def s1_def runTextEffect_eq runTriggerEffect_eq)
    have e: "effectStarted s \<longrightarrow> effectStarted s4"
      by (simp add: s4_def s3_def s2_def s1_def runTextEffect_eq runTriggerEffect_eq)
    have n: "isInitialized s \<longrightarrow> isInitialized s4"
      by (simp add: s4_def s3_def s2_def s1_def runTextEffect_eq runTriggerEffect_eq)
    from wf_runPhysicsEffect [OF i4 r e n] c True show ?thesis by simp
  qed
qed

lemma wf_handleTrigger: "wf_comp s \<Longrightarrow> wf_comp (handleTrigger s)"
  by (auto simp: wf_comp_def markup_ok_def handleTrigger_def)

lemma wf_handler: "wf_comp s \<Longrightarrow> wf_comp (handler e s)"
  by (cases e) (auto simp: wf_handleTrigger, auto simp: wf_comp_def markup_ok_def observerCallback_def)

lemma reachable_wf: "reachable s \<Longrightarrow> wf_comp s"
  by (induction rule: reachable.induct) (simp_all add: wf_initial wf_commit wf_handler)

lemma reachable_settle: "reachable s \<Longrightarrow> reachable (settle env s)"
  by (simp add: settle_def r_commit)

lemma reachable_mount: "reachable (mount p env)"
  by (simp add: mount_def reachable_settle r_initial)

lemma reachable_step: "reachable s \<Longrightarrow> reachable (step env e s)"
  by (simp add: step_def reachable_settle r_event)

lemma reachable_run: "reachable s \<Longrightarrow> reachable (run env es s)"
  by (induction es arbitrary: s) (simp_all add: reachable_step)


section \<open>The life cycle: degenerate layouts\<close>

text \<open>
  Under a layout without width or height no commit allocates or starts a session.
\<close>

lemma handler_fields [simp]:
  "created (handler e s) = created s"
  "running (handler e s) = running s"
  "thrown (handler e s) = thrown s"
  "textDeps (handler e s) = textDeps s"
  "triggerDeps (handler e s) = triggerDeps s"
  "physicsDeps (handler e s) = physicsDeps s"
  "isInitialized (handler e s) = isInitialized s"
  "innerHTML (handler e s) = innerHTML s"
  by (cases e; simp add: handleTrigger_def observerCallback_def)+

lemma commit_degenerate:
  assumes "degenerate env" "running s = None"
  shows "created (commit env s) = created s \<and> running (commit env s) = None"
proof -
  have r: "\<And>p st ini t. runPhysicsEffect env p st ini t = t\<lparr>physicsDeps := Some (physicsDepsOf p st ini)\<rparr>"
    using assms(1) by (intro runPhysicsEffect_returned) (auto simp: degenerate_def)
  show ?thesis
    using assms(2)
    by (simp add: commit_def Let_def r runTextEffect_eq runTriggerEffect_eq)
qed

lemma settle_degenerate:
  assumes "degenerate env" "running s = None"
  shows "created (settle env s) = created s \<and> running (settle env s) = None"
proof -
  note c = commit_degenerate [OF assms(1)]
  from c [OF assms(2)] have 1: "created (commit env s) = created s" "running (commit env s) = None"
    by simp_all
  from c [OF 1(2)] 1(1) have 2: "created (commit env (commit env s)) = created s"
    "running (commit env (commit env s)) = None" by simp_all
  from c [OF 2(2)] 2(1) show ?thesis by (simp add: settle_def)
qed

lemma step_degenerate:
  assumes "degenerate env" "running s = None"
  shows "created (step env e s) = created s \<and> running (step env e s) = None"
  using settle_degenerate [OF assms(1), of "handler e s"] assms(2)
  by (simp add: step_def)

lemma run_degenerate:
  "degenerate env \<Longrightarrow> running s = None \<Longrightarrow>
     created (run env es s) = created s \<and> running (run env es s) = None"
proof (induction es arbitrary: s)
  case Nil
  then show ?case by simp
next
  case (Cons e es)
  from step_degenerate [OF Cons.prems, of e]
  have s: "created (step env e s) = created s" "running (step env e s) = None" by simp_all
  from Cons.IH [OF Cons.prems(1) s(2)] s(1) show ?case by simp
qed

lemma mount_degenerate:
  "degenerate env \<Longrightarrow> created (mount p env) = [] \<and> running (mount p env) = None"
  using settle_degenerate [of env "initial p"] by (simp add: mount_def initial_def)


section \<open>The life cycle: settled states and events\<close>

text \<open>
  In a settled state an event whose handler sets no state changes nothing; when only the
  physics effect can be due, one commit settles.
\<close>

lemma not_due_settle: "\<not> due s \<Longrightarrow> settle env s = s"
  by (simp add: settle_def not_due_commit)

lemma commit_observing:
  "triggerDeps s = Some (triggerDepsOf (cur_props s) (isInitialized s)) \<Longrightarrow>
     observing (commit env s) = observing s"
  by (simp add: commit_def Let_def runTextEffect_eq runTriggerEffect_eq)

lemma not_due_deps:
  "\<not> due s \<Longrightarrow> thrown s = None \<Longrightarrow>
     textDeps s = Some (textDepsOf (cur_props s)) \<and>
     triggerDeps s = Some (triggerDepsOf (cur_props s) (isInitialized s)) \<and>
     physicsDeps s = Some (physicsDepsOf (cur_props s) (effectStarted s) (isInitialized s))"
  by (simp add: due_def)

lemma settle_one_commit:
  assumes "textDeps s = Some (textDepsOf (cur_props s))"
    and "triggerDeps s = Some (triggerDepsOf (cur_props s) (isInitialized s))"
  shows "settle env s = commit env s"
proof -
  have "\<not> due (commit env s)"
  proof (cases "thrown (commit env s) = None")
    case False
    then show ?thesis by (simp add: due_def)
  next
    case True
    from commit_deps [OF True] commit_isInitialized [OF assms(1), of env]
      commit_effectStarted [OF assms(2), of env]
    show ?thesis by (simp add: due_def)
  qed
  then show ?thesis by (simp add: settle_def not_due_commit)
qed

lemma handleTrigger_deps [simp]:
  "textDeps (handleTrigger s) = textDeps s"
  "triggerDeps (handleTrigger s) = triggerDeps s"
  "cur_props (handleTrigger s) = cur_props s"
  "isInitialized (handleTrigger s) = isInitialized s"
  "thrown (handleTrigger s) = thrown s"
  by (simp_all add: handleTrigger_def)

lemma step_effectStarted_mono: "effectStarted s \<Longrightarrow> effectStarted (step env e s)"
proof -
  assume a: "effectStarted s"
  have "effectStarted (handler e s)"
    using a by (cases e) (simp_all add: handleTrigger_def observerCallback_def)
  then have "effectStarted (settle env (handler e s))"
    by (simp add: settle_def commit_effectStarted_mono)
  with a show ?thesis by (simp add: step_def)
qed

lemma step_not_due: "\<not> due (step env e s)"
proof (cases "thrown s = None")
  case True
  then show ?thesis by (simp add: step_def settle_not_due)
next
  case False
  then show ?thesis by (simp add: step_def due_def)
qed

lemma matching_started:
  assumes "matching (trigger (cur_props s)) e" "thrown s = None"
  shows "effectStarted (step env e s)"
proof -
  from assms(1) have "effectStarted (handler e s)"
    by (auto simp: matching_def handleTrigger_def)
  then have "effectStarted (settle env (handler e s))"
    by (simp add: settle_def commit_effectStarted_mono)
  with assms(2) show ?thesis by (simp add: step_def)
qed

lemma matching_inert:
  assumes "matching (trigger (cur_props s)) e" "effectStarted s" "\<not> due s"
  shows "step env e s = s"
proof -
  from assms(1,2) have "handler e s = s"
    by (auto simp: matching_def handleTrigger_def)
  with assms(3) show ?thesis by (simp add: step_def not_due_settle)
qed

lemma step_cur_props [simp]:
  "cur_props (step env e s) = (case e of Rerender p \<Rightarrow> if thrown s = None then p else cur_props s | _ \<Rightarrow> cur_props s)"
  by (cases e) (simp_all add: step_def settle_def handleTrigger_def observerCallback_def)

lemma reachable_thrown: "reachable s \<Longrightarrow> thrown s = None"
  by (drule reachable_wf) (rule wf_thrown)

lemma run_replicate_inert: "step env e s = s \<Longrightarrow> run env (replicate n e) s = s"
  by (induction n) simp_all

lemma activation_session:
  assumes r: "reachable s" and nd: "\<not> due s" and ns: "\<not> effectStarted s"
    and w: "0 < rect_width (containerRect env)" and h: "0 < rect_height (containerRect env)"
  shows "running (settle env (s\<lparr>effectStarted := True, observing := ob\<rparr>)) \<noteq> None"
proof -
  note i = reachable_wf [OF r]
  have t: "thrown s = None" by (rule wf_thrown [OF i])
  from not_due_deps [OF nd t] have d: "textDeps s = Some (textDepsOf (cur_props s))"
    "triggerDeps s = Some (triggerDepsOf (cur_props s) (isInitialized s))"
    "physicsDeps s = Some (physicsDepsOf (cur_props s) (effectStarted s) (isInitialized s))"
    by simp_all
  from i d(1) have ini: "isInitialized s" by (simp add: wf_comp_def markup_ok_def)
  from i ns have rn: "running s = None" by (auto simp: wf_comp_def)
  define s' where "s' = s\<lparr>effectStarted := True, observing := ob\<rparr>"
  have "settle env s' = commit env s'"
    by (rule settle_one_commit) (simp_all add: s'_def d)
  moreover obtain made sess where
    "runPhysicsEffect env (cur_props s) True True s' =
       s'\<lparr>created := created s' @ made, running := Some sess,
          drawn := drawn s' + 2 * length (innerHTML s'),
          physicsDeps := Some (physicsDepsOf (cur_props s) True True)\<rparr>"
    using runPhysicsEffect_started [of True True env "cur_props s" s'] w h by blast
  then have "running (runPhysicsEffect env (cur_props s) True True s') \<noteq> None" by simp
  then have "running (commit env s') \<noteq> None"
    using t d ns ini rn
    by (simp add: commit_def Let_def s'_def physicsDepsOf_def)
  ultimately show ?thesis by (simp add: s'_def)
qed

lemma matching_session:
  assumes m: "matching (trigger (cur_props s)) e" and r: "reachable s" and nd: "\<not> due s"
    and ns: "\<not> effectStarted s"
    and w: "0 < rect_width (containerRect env)" and h: "0 < rect_height (containerRect env)"
  shows "running (step env e s) \<noteq> None"
proof -
  from m ns have hs: "handler e s = s\<lparr>effectStarted := True, observing := observing s\<rparr>"
    by (auto simp: matching_def handleTrigger_def)
  from activation_session [OF r nd ns w h, of "observing s"] reachable_thrown [OF r]
  show ?thesis by (simp add: step_def hs del: handler.simps)
qed


section \<open>The life cycle: mounting and the observer\<close>

text \<open>
  The state after mounting for the manual triggers and for the scroll trigger, and the
  effect of the observer's notifications on it.
\<close>

lemma commit_initial:
  "commit env (initial p) =
     (initial p)\<lparr>innerHTML := wordSpans toLowerCase p, isInitialized := True,
       textDeps := Some (textDepsOf p), triggerDeps := Some (triggerDepsOf p False),
       physicsDeps := Some (physicsDepsOf p False False)\<rparr>"
  by (simp add: commit_def Let_def initial_def runTextEffect_eq runTriggerEffect_eq
      runPhysicsEffect_returned triggerCleanup_def)

lemma mount_eq:
  "mount p env =
     commit env (commit env
       ((initial p)\<lparr>innerHTML := wordSpans toLowerCase p, isInitialized := True,
          textDeps := Some (textDepsOf p), triggerDeps := Some (triggerDepsOf p False),
          physicsDeps := Some (physicsDepsOf p False False)\<rparr>))"
  by (simp add: mount_def settle_def commit_initial)

lemma mount_manual:
  assumes "trigger p \<noteq> ''auto''" "trigger p \<noteq> ''scroll''"
  shows "mount p env =
     (initial p)\<lparr>innerHTML := wordSpans toLowerCase p, isInitialized := True,
       textDeps := Some (textDepsOf p), triggerDeps := Some (triggerDepsOf p True),
       physicsDeps := Some (physicsDepsOf p False True)\<rparr>"
proof -
  let ?s2 = "(initial p)\<lparr>innerHTML := wordSpans toLowerCase p, isInitialized := True,
       textDeps := Some (textDepsOf p), triggerDeps := Some (triggerDepsOf p True),
       physicsDeps := Some (physicsDepsOf p False True)\<rparr>"
  have 1: "commit env ((initial p)\<lparr>innerHTML := wordSpans toLowerCase p, isInitialized := True,
          textDeps := Some (textDepsOf p), triggerDeps := Some (triggerDepsOf p False),
          physicsDeps := Some (physicsDepsOf p False False)\<rparr>) = ?s2"
    using assms
    by (simp add: commit_def Let_def initial_def runTextEffect_eq runTriggerEffect_eq
        runPhysicsEffect_returned triggerDepsOf_def physicsDepsOf_def triggerCleanup_def)
  have 2: "\<not> due ?s2" by (simp add: due_def initial_def)
  show ?thesis by (simp add: mount_eq 1 not_due_commit [OF 2])
qed

lemma mount_scroll:
  assumes "trigger p = ''scroll''"
  shows "mount p env =
     (initial p)\<lparr>innerHTML := wordSpans toLowerCase p, isInitialized := True, observing := True,
       observerCleanup := True,
       textDeps := Some (textDepsOf p), triggerDeps := Some (triggerDepsOf p True),
       physicsDeps := Some (physicsDepsOf p False True)\<rparr>"
proof -
  let ?s2 = "(initial p)\<lparr>innerHTML := wordSpans toLowerCase p, isInitialized := True, observing := True,
       observerCleanup := True,
       textDeps := Some (textDepsOf p), triggerDeps := Some (triggerDepsOf p True),
       physicsDeps := Some (physicsDepsOf p False True)\<rparr>"
  have 1: "commit env ((initial p)\<lparr>innerHTML := wordSpans toLowerCase p, isInitialized := True,
          textDeps := Some (textDepsOf p), triggerDeps := Some (triggerDepsOf p False),
          physicsDeps := Some (physicsDepsOf p False False)\<rparr>) = ?s2"
    using assms
    by (simp add: commit_def Let_def initial_def runTextEffect_eq runTriggerEffect_eq
        runPhysicsEffect_returned triggerDepsOf_def physicsDepsOf_def triggerCleanup_def)
  have 2: "\<not> due ?s2" by (simp add: due_def initial_def)
  show ?thesis by (simp add: mount_eq 1 not_due_commit [OF 2])
qed

lemma intersection_below:
  "r < 1 / 10 \<Longrightarrow> \<not> due s \<Longrightarrow> step env (Intersection r) s = s"
  by (simp add: step_def observerCallback_def observe_def not_due_settle)

lemma intersection_disconnected:
  "\<not> observing s \<Longrightarrow> \<not> due s \<Longrightarrow> step env (Intersection r) s = s"
  by (simp add: step_def not_due_settle)

lemma run_intersections_disconnected:
  "\<not> observing s \<Longrightarrow> \<not> due s \<Longrightarrow> run env (map Intersection rs) s = s"
  by (induction rs) (simp_all add: intersection_disconnected)

lemma intersection_reached:
  assumes "1 / 10 \<le> r" "observing s" "\<not> due s" "thrown s = None"
  shows "effectStarted (step env (Intersection r) s) \<and>
         \<not> observing (step env (Intersection r) s) \<and>
         step env (Intersection r) s =
           settle env (s\<lparr>effectStarted := True, observing := False\<rparr>)"
proof -
  define s' where "s' = s\<lparr>effectStarted := True, observing := False\<rparr>"
  from assms(1,2) have hs: "handler (Intersection r) s = s'"
    by (simp add: observerCallback_def observe_def s'_def)
  from not_due_deps [OF assms(3,4)]
  have d: "textDeps s' = Some (textDepsOf (cur_props s'))"
    "triggerDeps s' = Some (triggerDepsOf (cur_props s') (isInitialized s'))"
    by (simp_all add: s'_def)
  have st: "settle env s' = commit env s'" by (rule settle_one_commit [OF d])
  have "effectStarted (commit env s')"
    by (rule commit_effectStarted_mono) (simp add: s'_def)
  moreover have "observing (commit env s') = observing s'" by (rule commit_observing [OF d(2)])
  then have "\<not> observing (commit env s')" by (simp add: s'_def)
  moreover have "step env (Intersection r) s = settle env s'"
    using assms(4) hs by (simp add: step_def del: handler.simps)
  ultimately show ?thesis by (simp add: st flip: s'_def)
qed

lemma run_not_due: "\<not> due s \<Longrightarrow> \<not> due (run env es s)"
  by (induction es arbitrary: s) (simp_all add: step_not_due)

lemma run_intersections:
  assumes "observing s" "\<not> effectStarted s" "\<not> due s" "reachable s"
  shows "effectStarted (run env (map Intersection rs) s) = (\<exists>r\<in>set rs. 1 / 10 \<le> r) \<and>
         observing (run env (map Intersection rs) s) = (\<forall>r\<in>set rs. r < 1 / 10) \<and>
         ((\<forall>r\<in>set rs. r < 1 / 10) \<longrightarrow> run env (map Intersection rs) s = s) \<and>
         ((\<exists>r\<in>set rs. 1 / 10 \<le> r) \<and> 0 < rect_width (containerRect env) \<and>
            0 < rect_height (containerRect env) \<longrightarrow>
              running (run env (map Intersection rs) s) \<noteq> None)"
  using assms
proof (induction rs)
  case Nil
  then show ?case by simp
next
  case (Cons r rs)
  show ?case
  proof (cases "r < 1 / 10")
    case True
    then have "step env (Intersection r) s = s"
      using Cons.prems(3) by (rule intersection_below)
    with Cons True show ?thesis by simp
  next
    case False
    then have ge: "1 / 10 \<le> r" by simp
    let ?s = "step env (Intersection r) s"
    from intersection_reached [OF ge Cons.prems(1,3) reachable_thrown [OF Cons.prems(4)], of env]
    have a: "effectStarted ?s" "\<not> observing ?s"
      "?s = settle env (s\<lparr>effectStarted := True, observing := False\<rparr>)"
      by blast+
    have "running ?s \<noteq> None"
      if "0 < rect_width (containerRect env)" "0 < rect_height (containerRect env)"
      using activation_session [OF Cons.prems(4,3,2) that, of False] a(3) by simp
    moreover have "run env (map Intersection rs) ?s = ?s"
      by (rule run_intersections_disconnected [OF a(2) step_not_due])
    ultimately show ?thesis using a(1,2) ge False by auto
  qed
qed


section \<open>The run of the physics effect in a commit\<close>

text \<open>
  When the physics effect is due, it runs after the teardown of the previous session and
  on the spans of the current text.
\<close>

lemma map_elem_makeWordBodies:
  "map elem (makeWordBodies c rnd k j rects) = [j..<j + length rects]"
  by (rule nth_equalityI) (simp_all add: nth_makeWordBodies)

lemma commit_physics_due:
  assumes i: "wf_comp s"
    and due: "physicsDeps s \<noteq>
                Some (physicsDepsOf (cur_props s) (effectStarted s) (isInitialized s))"
  shows "\<exists>t. wf_comp t \<and> running t = None \<and> created t = created s \<and> drawn t = drawn s \<and>
             innerHTML t = wordSpans toLowerCase (cur_props s) \<and>
             commit env s =
               runPhysicsEffect env (cur_props s) (effectStarted s) (isInitialized s) t"
proof -
  define p where "p = cur_props s"
  define doText where "doText = (textDeps s \<noteq> Some (textDepsOf p))"
  define doTrigger where "doTrigger = (triggerDeps s \<noteq> Some (triggerDepsOf p (isInitialized s)))"
  define s1 where "s1 = (if doTrigger then triggerCleanup s else s)"
  define s2 where "s2 = teardown True s1"
  define s3 where "s3 = (if doText then runTextEffect p s2 else s2)"
  define s4 where "s4 = (if doTrigger then runTriggerEffect p (isInitialized s) s3 else s3)"
  have i1: "wf_comp s1" using i by (simp add: s1_def wf_triggerCleanup)
  have i2: "wf_comp s2" using i1 by (simp add: s2_def wf_teardown)
  have i3: "wf_comp s3" using i2 by (simp add: s3_def wf_runTextEffect)
  have i4: "wf_comp s4" using i3 by (simp add: s4_def wf_runTriggerEffect)
  have "commit env s =
          (if thrown s2 \<noteq> None then s2
           else runPhysicsEffect env p (effectStarted s) (isInitialized s) s4)"
    using wf_thrown [OF i] due
    by (simp add: commit_def Let_def p_def doText_def doTrigger_def s1_def
        s2_def s3_def s4_def)
  then have c: "commit env s = runPhysicsEffect env p (effectStarted s) (isInitialized s) s4"
    by (simp add: wf_thrown [OF i2])
  have f: "running s4 = None" "created s4 = created s" "drawn s4 = drawn s"
    by (simp_all add: s4_def s3_def s2_def s1_def runTextEffect_eq runTriggerEffect_eq
        triggerCleanup_def)
  have "innerHTML s = wordSpans toLowerCase p" if "\<not> doText"
    using that i by (simp add: doText_def wf_comp_def markup_ok_def wordSpans_textDeps)
  then have h: "innerHTML s4 = wordSpans toLowerCase p"
    by (simp add: s4_def s3_def s2_def s1_def runTextEffect_eq runTriggerEffect_eq
        triggerCleanup_def)
  from i4 f h c show ?thesis unfolding p_def by blast
qed

lemma runPhysicsEffect_running:
  assumes "running t = None" "running (runPhysicsEffect env p st ini t) = Some sess"
  shows "\<exists>made. physicsEffect p st ini (refsOf env t) (random env) (drawn t) = (made, Started sess)"
proof (cases "st \<and> ini \<and> 0 < rect_width (containerRect env) \<and> 0 < rect_height (containerRect env)")
  case False
  from runPhysicsEffect_returned [OF False, of p t] assms show ?thesis by simp
next
  case True
  then obtain made sess' where
    r: "physicsEffect p st ini (refsOf env t) (random env) (drawn t) = (made, Started sess')"
      "runPhysicsEffect env p st ini t =
         t\<lparr>created := created t @ made, running := Some sess',
           drawn := drawn t + 2 * length (innerHTML t),
           physicsDeps := Some (physicsDepsOf p st ini)\<rparr>"
    using runPhysicsEffect_started [of st ini env p t] by blast
  from r(2) assms(2) have "sess' = sess" by simp
  with r(1) show ?thesis by blast
qed

lemma physicsEffect_wordBodies:
  assumes "physicsEffect p st ini d rnd k = (made, Started sess)"
  shows "\<exists>c rects. containerRef d = Some c \<and> textRef d = Some rects \<and>
           wordBodies sess = makeWordBodies c rnd k 0 rects \<and>
           worldBodies (world sess) =
             [floorBody (rect_width c) (rect_height c), leftWall (rect_width c) (rect_height c),
              rightWall (rect_width c) (rect_height c),
              ceilingBody (rect_width c) (rect_height c)] @ map wbody (wordBodies sess) \<and>
           bodiesOf made = worldBodies (world sess)"
proof -
  from assms obtain c rects where h: "st" "ini" "containerRef d = Some c"
    "0 < rect_width c" "0 < rect_height c" "textRef d = Some rects"
    by (rule physicsEffect_Started_cases)
  from physicsEffect_started [OF h(3,4,5,6), of p rnd k] h(1,2) assms
  have "wordBodies sess = makeWordBodies c rnd k 0 rects \<and>
        worldBodies (world sess) =
             [floorBody (rect_width c) (rect_height c), leftWall (rect_width c) (rect_height c),
              rightWall (rect_width c) (rect_height c),
              ceilingBody (rect_width c) (rect_height c)] @ map wbody (wordBodies sess) \<and>
           bodiesOf made = worldBodies (world sess)"
    by auto
  with h(3,6) show ?thesis by blast
qed


section \<open>Splitting the text\<close>

text \<open>
  \<open>js_split\<close> against \<open>js_join\<close> and against the whitespace-delimited tokens.
\<close>

lemma length_js_split: "length (js_split sep s) = Suc (count_list s sep)"
  by (induction s) (simp_all add: js_split_not_Nil)

lemma js_join_Cons: "ys \<noteq> [] \<Longrightarrow> js_join sep (x # ys) = x @ sep @ js_join sep ys"
  by (cases ys) simp_all

lemma js_join_split: "js_join [sep] (js_split sep s) = s"
proof (induction s)
  case Nil
  show ?case by simp
next
  case (Cons c cs)
  obtain w ws where s: "js_split sep cs = w # ws"
    using js_split_not_Nil [of sep cs] by (cases "js_split sep cs") auto
  show ?case
  proof (cases "c = sep")
    case True
    with Cons show ?thesis by (simp add: js_join_Cons)
  next
    case False
    with Cons s show ?thesis by (cases ws) simp_all
  qed
qed

lemma ws_split_js_split:
  assumes "\<forall>c\<in>set cs. is_ws c \<longrightarrow> c = CHR '' ''"
  shows "ws_split w cs =
           filter (\<lambda>x. x \<noteq> [])
             ((w @ hd (js_split CHR '' '' cs)) # tl (js_split CHR '' '' cs))"
  using assms
proof (induction cs arbitrary: w)
  case Nil
  then show ?case by simp
next
  case (Cons c cs)
  have sp: "is_ws CHR '' ''" by (simp add: is_ws_def)
  from Cons.prems have tl: "\<forall>c\<in>set cs. is_ws c \<longrightarrow> c = CHR '' ''" by simp
  obtain x xs where s: "js_split CHR '' '' cs = x # xs"
    using js_split_not_Nil [of "CHR '' ''" cs] by (cases "js_split CHR '' '' cs") auto
  show ?case
  proof (cases "c = CHR '' ''")
    case True
    with Cons.IH [OF tl, of "[]"] sp s show ?thesis by simp
  next
    case False
    with Cons.prems have "\<not> is_ws c" by auto
    with Cons.IH [OF tl, of "w @ [c]"] False s show ?thesis by simp
  qed
qed

lemma ws_tokens_js_split:
  assumes "\<forall>c\<in>set s. is_ws c \<longrightarrow> c = CHR '' ''"
  shows "ws_tokens s = filter (\<lambda>x. x \<noteq> []) (js_split CHR '' '' s)"
proof -
  obtain x xs where s: "js_split CHR '' '' s = x # xs"
    using js_split_not_Nil [of "CHR '' ''" s] by (cases "js_split CHR '' '' s") auto
  from ws_split_js_split [OF assms, of "[]"] s show ?thesis by (simp add: ws_tokens_def)
qed


section \<open>Mounting with the trigger "auto"\<close>

text \<open>
  With the trigger "auto" two commits lead to the state \<open>armed\<close>, and the third runs
  the physics effect with both flags set.
\<close>

lemma premount_auto:
  assumes "trigger p = ''auto''"
  shows "commit env (commit env (initial p)) = armed p"
  using assms
  by (simp add: commit_initial commit_def Let_def initial_def runTextEffect_eq
      runTriggerEffect_eq runPhysicsEffect_returned triggerDepsOf_def physicsDepsOf_def
      triggerCleanup_def armed_def)

lemma reachable_armed: "trigger p = ''auto'' \<Longrightarrow> reachable (armed p)"
  using r_commit [OF r_commit [OF r_initial [of p], of example_env], of example_env]
  by (simp add: premount_auto)

lemma armed_fields:
  "cur_props (armed p) = p" "effectStarted (armed p)" "isInitialized (armed p)"
  "physicsDeps (armed p) = Some (physicsDepsOf p False True)" "running (armed p) = None"
  "created (armed p) = []" "drawn (armed p) = 0" "innerHTML (armed p) = wordSpans toLowerCase p"
  "thrown (armed p) = None" "textDeps (armed p) = Some (textDepsOf p)"
  "triggerDeps (armed p) = Some (triggerDepsOf p True)"
  by (simp_all add: armed_def initial_def)

lemma commit_armed:
  "commit env (armed p) = runPhysicsEffect env p True True (armed p)"
  by (simp add: commit_def Let_def armed_fields physicsDepsOf_def)

lemma mount_auto:
  assumes "trigger p = ''auto''"
  shows "mount p env = runPhysicsEffect env p True True (armed p)"
  by (simp add: mount_def settle_def premount_auto [OF assms] commit_armed)

lemma mount_auto_started:
  assumes "trigger p = ''auto''" "0 < rect_width (containerRect env)"
    "0 < rect_height (containerRect env)"
  shows "\<exists>made sess.
           physicsEffect p True True (refsOf env (armed p)) (random env) 0 = (made, Started sess) \<and>
           running (mount p env) = Some sess \<and> created (mount p env) = made \<and> made \<noteq> [] \<and>
           effectStarted (mount p env) \<and> isInitialized (mount p env) \<and>
           innerHTML (mount p env) = wordSpans toLowerCase p"
proof -
  from runPhysicsEffect_started [of True True env p "armed p"] assms(2,3)
  obtain made sess where
    r: "physicsEffect p True True (refsOf env (armed p)) (random env) (drawn (armed p)) =
          (made, Started sess)" "made \<noteq> []"
      "runPhysicsEffect env p True True (armed p) =
         (armed p)\<lparr>created := created (armed p) @ made, running := Some sess,
           drawn := drawn (armed p) + 2 * length (innerHTML (armed p)),
           physicsDeps := Some (physicsDepsOf p True True)\<rparr>"
    by blast
  show ?thesis
    using r by (simp add: mount_auto [OF assms(1)] armed_fields)
qed

lemma example_layout:
  "0 < rect_width (containerRect example_env)" "0 < rect_height (containerRect example_env)"
  by (simp_all add: example_env_def)

lemma words_auto: "words auto_props = [''Alpha'', ''Seo'', ''Gamma'']"
  by (simp add: words_def auto_props_def example_props_def)

lemma words_spaced: "words spaced_props = [''a'', '''', ''b'']"
  by (simp add: words_def spaced_props_def example_props_def)

lemma ws_tokens_spaced: "ws_tokens (text_prop spaced_props) = [''a'', ''b'']"
  by (simp add: ws_tokens_def spaced_props_def example_props_def is_ws_def)

lemma mount_cur_props [simp]: "cur_props (mount p env) = p"
  by (simp add: mount_def settle_def initial_def)

lemma mount_not_due: "\<not> due (mount p env)"
  by (simp add: mount_def settle_not_due)


section \<open>Tokens and token bodies\<close>

lemma plain_reachable_reachable: "plain_reachable s \<Longrightarrow> reachable s"
  by (induction rule: plain_reachable.induct) (auto intro: reachable.intros)

lemma plain_reachable_markup_free: "plain_reachable s \<Longrightarrow> markup_free (cur_props s)"
proof (induction rule: plain_reachable.induct)
  case (p_initial p)
  then show ?case by (simp add: initial_def)
next
  case (p_commit s env)
  then show ?case by simp
next
  case (p_event s e)
  then show ?case by (cases e) (simp_all add: handleTrigger_def observerCallback_def)
qed

lemma plain_reachable_armed:
  assumes "trigger p = ''auto''" "markup_free p"
  shows "plain_reachable (armed p)"
  using p_commit [OF p_commit [OF p_initial [OF assms(2)], of example_env], of example_env]
  by (simp add: premount_auto [OF assms(1)])

lemma started_session_tokens:
  assumes r: "reachable s"
    and due: "physicsDeps s \<noteq>
                Some (physicsDepsOf (cur_props s) (effectStarted s) (isInitialized s))"
    and run: "running (commit env s) = Some sess"
  shows "map elem (wordBodies sess) = [0..<length (words (cur_props s))] \<and>
         filter (\<lambda>b. \<not> isStatic b) (worldBodies (world sess)) = map wbody (wordBodies sess)"
proof -
  from commit_physics_due [OF reachable_wf [OF r] due, of env]
  obtain t where t: "running t = None" "innerHTML t = wordSpans toLowerCase (cur_props s)"
    "commit env s = runPhysicsEffect env (cur_props s) (effectStarted s) (isInitialized s) t"
    by blast
  from run t(3)
  have "running (runPhysicsEffect env (cur_props s) (effectStarted s) (isInitialized s) t) =
          Some sess"
    by simp
  from runPhysicsEffect_running [OF t(1) this]
  obtain made where
    "physicsEffect (cur_props s) (effectStarted s) (isInitialized s) (refsOf env t) (random env)
       (drawn t) = (made, Started sess)"
    by blast
  from physicsEffect_wordBodies [OF this]
  have w: "wordBodies sess =
          makeWordBodies (containerRect env) (random env) (drawn t) 0
            (map (wordRect env) [0..<length (innerHTML t)])"
    and b: "worldBodies (world sess) =
          [floorBody (rect_width (containerRect env)) (rect_height (containerRect env)),
           leftWall (rect_width (containerRect env)) (rect_height (containerRect env)),
           rightWall (rect_width (containerRect env)) (rect_height (containerRect env)),
           ceilingBody (rect_width (containerRect env)) (rect_height (containerRect env))]
          @ map wbody (wordBodies sess)"
    by (auto simp: refsOf_def)
  have "filter (\<lambda>b. \<not> isStatic b) (map wbody (wordBodies sess)) = map wbody (wordBodies sess)"
    unfolding w by (auto simp: filter_id_conv dest: makeWordBodies_dynamic)
  then have "filter (\<lambda>b. \<not> isStatic b) (worldBodies (world sess)) =
               map wbody (wordBodies sess)"
    unfolding b filter_append
    by (simp add: floorBody_def leftWall_def rightWall_def ceilingBody_def boundary_def)
  with w show ?thesis
    by (simp add: map_elem_makeWordBodies t(2) length_wordSpans)
qed

text \<open>
  C1, as the specification states it, fails. For the text "a  b" (two spaces) the pieces are
  "a", "" and "b": three spans are written and the session gets three token bodies, while
  the text has two whitespace-delimited tokens.
\<close>

theorem token_count_counterexample:
  "map_option (length \<circ> wordBodies) (running (mount spaced_props example_env)) = Some 3 \<and>
   length (ws_tokens (text_prop spaced_props)) = 2"
proof -
  have t: "trigger spaced_props = ''auto''" by (simp add: spaced_props_def)
  from mount_auto_started [OF t example_layout]
  obtain made sess where
    r: "physicsEffect spaced_props True True (refsOf example_env (armed spaced_props))
          (random example_env) 0 = (made, Started sess)"
      "running (mount spaced_props example_env) = Some sess"
    by blast
  from physicsEffect_wordBodies [OF r(1)]
  have "length (wordBodies sess) = length (innerHTML (armed spaced_props))"
    by (auto simp: refsOf_def)
  then have "length (wordBodies sess) = 3"
    by (simp add: armed_fields length_wordSpans words_spaced)
  with r(2) show ?thesis by (simp add: ws_tokens_spaced)
qed

text \<open>
  C1, amended. The text is split at every space character, in order and with the empty
  pieces kept: joining the pieces with single spaces gives the text back, and there is one
  more piece than there are spaces. The pieces are the whitespace-delimited tokens of the
  text when the text has no white space other than spaces and no piece is empty. For an
  instance that has only been given \<open>markup_free\<close> properties, every run of the physics
  effect that starts a session creates one token body per piece, for the spans in document
  order, and these are the bodies of the world that are not static.
\<close>

theorem token_bodies_per_space_piece:
  "js_join '' '' (words p) = text_prop p \<and>
   length (words p) = Suc (count_list (text_prop p) CHR '' '') \<and>
   ((\<forall>c\<in>set (text_prop p). is_ws c \<longrightarrow> c = CHR '' '') \<and> [] \<notin> set (words p) \<longrightarrow>
      words p = ws_tokens (text_prop p)) \<and>
   (plain_reachable s \<and>
    physicsDeps s \<noteq> Some (physicsDepsOf (cur_props s) (effectStarted s) (isInitialized s)) \<and>
    running (commit env s) = Some sess \<longrightarrow>
      markup_free (cur_props s) \<and>
      map elem (wordBodies sess) = [0..<length (words (cur_props s))] \<and>
      length (wordBodies sess) = length (words (cur_props s)) \<and>
      filter (\<lambda>b. \<not> isStatic b) (worldBodies (world sess)) = map wbody (wordBodies sess))"
proof (intro conjI impI)
  show "js_join '' '' (words p) = text_prop p"
    by (simp add: words_def js_join_split)
  show "length (words p) = Suc (count_list (text_prop p) CHR '' '')"
    by (simp add: words_def length_js_split)
next
  assume a: "(\<forall>c\<in>set (text_prop p). is_ws c \<longrightarrow> c = CHR '' '') \<and> [] \<notin> set (words p)"
  then have "filter (\<lambda>x. x \<noteq> []) (words p) = words p"
    by (auto simp: filter_id_conv)
  with a show "words p = ws_tokens (text_prop p)"
    by (simp add: ws_tokens_js_split words_def)
next
  assume a: "plain_reachable s \<and>
    physicsDeps s \<noteq> Some (physicsDepsOf (cur_props s) (effectStarted s) (isInitialized s)) \<and>
    running (commit env s) = Some sess"
  then have r: "reachable s" and mf: "markup_free (cur_props s)"
    by (simp_all add: plain_reachable_reachable plain_reachable_markup_free)
  from started_session_tokens [of s env sess] a r
  have m: "map elem (wordBodies sess) = [0..<length (words (cur_props s))]"
    and f: "filter (\<lambda>b. \<not> isStatic b) (worldBodies (world sess)) =
              map wbody (wordBodies sess)"
    by simp_all
  from mf show "markup_free (cur_props s)" .
  from m show "map elem (wordBodies sess) = [0..<length (words (cur_props s))]" .
  from m have "length (map elem (wordBodies sess)) = length [0..<length (words (cur_props s))]"
    by simp
  then show "length (wordBodies sess) = length (words (cur_props s))" by simp
  from f show "filter (\<lambda>b. \<not> isStatic b) (worldBodies (world sess)) =
                 map wbody (wordBodies sess)" .
qed

text \<open>
  The example text "Alpha Seo Gamma": its properties are \<open>markup_free\<close>, the physics effect
  is due in the state before the activating commit, the session it starts has the bodies
  of the spans 0, 1 and 2, and the three pieces are the whitespace-delimited tokens.
\<close>

theorem token_bodies_per_space_piece_witness:
  "plain_reachable (armed auto_props) \<and>
   physicsDeps (armed auto_props) \<noteq>
     Some (physicsDepsOf (cur_props (armed auto_props)) (effectStarted (armed auto_props))
       (isInitialized (armed auto_props))) \<and>
   map_option (map elem \<circ> wordBodies) (running (commit example_env (armed auto_props))) =
     Some [0, 1, 2] \<and>
   [] \<notin> set (words auto_props) \<and> words auto_props = ws_tokens (text_prop auto_props) \<and>
   length (words auto_props) = 3"
proof -
  have t: "trigger auto_props = ''auto''" by (simp add: auto_props_def)
  have mf: "markup_free auto_props"
    by (simp add: markup_free_def html_special_def auto_props_def example_props_def)
  have r: "plain_reachable (armed auto_props)" by (rule plain_reachable_armed [OF t mf])
  have d: "physicsDeps (armed auto_props) \<noteq>
     Some (physicsDepsOf (cur_props (armed auto_props)) (effectStarted (armed auto_props))
       (isInitialized (armed auto_props)))"
    by (simp add: armed_fields physicsDepsOf_def)
  from mount_auto_started [OF t example_layout]
  obtain sess where s: "running (mount auto_props example_env) = Some sess" by blast
  then have s': "running (commit example_env (armed auto_props)) = Some sess"
    by (simp add: mount_auto [OF t] commit_armed)
  have w: "\<forall>c\<in>set (text_prop auto_props). is_ws c \<longrightarrow> c = CHR '' ''"
    by (simp add: auto_props_def example_props_def is_ws_def)
  have e: "[] \<notin> set (words auto_props)" by (simp add: words_auto)
  from token_bodies_per_space_piece [of auto_props "armed auto_props" example_env sess]
    r d s' w e
  have a: "map elem (wordBodies sess) = [0..<length (words auto_props)]"
    and b: "words auto_props = ws_tokens (text_prop auto_props)"
    by (simp_all add: armed_fields)
  from a have "map elem (wordBodies sess) = [0, 1, 2]"
    by (simp add: words_auto upt_conv_Cons)
  with r d s' e b [symmetric] show ?thesis
    by (simp add: words_auto)
qed


section \<open>Degenerate layouts\<close>

text \<open>
  C3. When the container's rectangle has width or height at most zero, a run of the
  physics effect returns without one allocating call, whatever the flags and the rest of
  the page; and an instance mounted under such a layout has allocated nothing and has no
  session after any sequence of events.
\<close>

theorem no_resources_on_degenerate_layout:
  assumes "rect_width c \<le> 0 \<or> rect_height c \<le> 0"
  shows "(containerRef d = Some c \<longrightarrow> physicsEffect p st ini d rnd k = ([], Returned)) \<and>
         (containerRect env = c \<longrightarrow>
            created (run env es (mount p env)) = [] \<and>
            running (run env es (mount p env)) = None)"
proof (intro conjI impI)
  assume "containerRef d = Some c"
  with assms show "physicsEffect p st ini d rnd k = ([], Returned)"
    by (simp add: physicsEffect_degenerate)
next
  assume c: "containerRect env = c"
  with assms have d: "degenerate env" by (simp add: degenerate_def)
  from mount_degenerate [OF d, of p] have m: "created (mount p env) = []" "running (mount p env) = None"
    by simp_all
  from run_degenerate [OF d m(2), of es] m(1)
  show "created (run env es (mount p env)) = []" "running (run env es (mount p env)) = None"
    by simp_all
qed

text \<open>
  A container of height zero: the effect allocates nothing although both flags are set,
  and the instance with the trigger "auto", which is activated at once, has no session.
\<close>

theorem no_resources_on_degenerate_layout_witness:
  "rect_height (containerRect flat_env) \<le> 0 \<and>
   physicsEffect auto_props True True
     (example_refs\<lparr>containerRef := Some (containerRect flat_env)\<rparr>) example_random 0 =
     ([], Returned) \<and>
   created (run flat_env [Click, MouseOver, Intersection 1] (mount auto_props flat_env)) = [] \<and>
   running (run flat_env [Click, MouseOver, Intersection 1] (mount auto_props flat_env)) = None \<and>
   effectStarted (mount auto_props flat_env)"
proof -
  have h: "rect_width (containerRect flat_env) \<le> 0 \<or> rect_height (containerRect flat_env) \<le> 0"
    by (simp add: flat_env_def)
  have e: "effectStarted (mount auto_props flat_env)"
    by (simp add: mount_auto auto_props_def armed_fields)
  from no_resources_on_degenerate_layout [OF h,
      where d = "example_refs\<lparr>containerRef := Some (containerRect flat_env)\<rparr>"
        and p = auto_props and st = True and ini = True and rnd = example_random and k = 0
        and env = flat_env and es = "[Click, MouseOver, Intersection 1]"]
  have "physicsEffect auto_props True True
     (example_refs\<lparr>containerRef := Some (containerRect flat_env)\<rparr>) example_random 0 =
     ([], Returned)"
    "created (run flat_env [Click, MouseOver, Intersection 1] (mount auto_props flat_env)) = []"
    "running (run flat_env [Click, MouseOver, Intersection 1] (mount auto_props flat_env)) = None"
    by simp_all
  with e show ?thesis by (simp add: flat_env_def)
qed


section \<open>Teardown\<close>

text \<open>
  The canvas of a registered session is a child of the canvas container, so one call of
  its cleanup function raises nothing. The call detaches the canvas; the function has no
  record of having run, so a second call while the container is mounted hands
  \<open>removeChild\<close> a node that is no longer a child.
\<close>

lemma reachable_canvasAttached:
  "reachable s \<Longrightarrow> running s = Some sess \<Longrightarrow> canvasAttached sess"
  by (drule reachable_wf) (simp add: wf_comp_def)

lemma cleanup_attached:
  assumes "canvasAttached sess"
  shows "cleanup True sess = Inr (sess\<lparr>canvasAttached := False, world := []\<rparr>)"
    and "cleanup False sess = Inr (sess\<lparr>world := []\<rparr>)"
    and "cleanup_twice b False sess = cleanup b sess"
    and "cleanup_twice True True sess = Inl NotFoundError"
  using assms by (simp_all add: cleanup_def cleanup_twice_def)

lemma teardown_twice: "teardown b' (teardown b s) = teardown b s"
  by simp

lemma reachable_teardown_thrown: "reachable s \<Longrightarrow> thrown (teardown b s) = None"
  by (drule reachable_wf) (auto simp: wf_comp_def teardown_thrown split: option.splits)

text \<open>
  C4, as the specification states it, fails. The mounted example with the trigger "auto"
  has a session; its cleanup function, called twice in a row while the canvas container
  is mounted, throws \<open>NotFoundError\<close> at the second call.
\<close>

theorem cleanup_twice_counterexample:
  "map_option (cleanup_twice True True) (running (mount auto_props example_env)) =
     Some (Inl NotFoundError)"
proof -
  have t: "trigger auto_props = ''auto''" by (simp add: auto_props_def)
  from mount_auto_started [OF t example_layout]
  obtain sess where m: "running (mount auto_props example_env) = Some sess" by blast
  from reachable_canvasAttached [OF reachable_mount m] have "canvasAttached sess" .
  then have "cleanup_twice True True sess = Inl NotFoundError" by (rule cleanup_attached(4))
  with m show ?thesis by simp
qed

text \<open>
  C4, amended. In every reachable state: without a session teardown changes nothing, in
  particular after a start that the degenerate-layout check aborted, under any events.
  The cleanup function of a session raises nothing when it is called once, as React calls
  it: with the canvas container mounted it detaches the canvas and empties the world,
  with the ref cleared it empties the world. A second call of the same function changes
  nothing more and raises nothing when the ref is cleared by then, and throws
  \<open>NotFoundError\<close> when both calls find the container mounted. React's teardown calls
  the function once and forgets it: it raises no exception, a second teardown after it
  changes nothing and raises no exception, and a session that the physics effect then
  builds holds exactly the four boundaries, the pointer constraint and one body for each
  span, each span once.
\<close>

theorem teardown_safe_cleanup_once:
  assumes "reachable s"
  shows "(running s = None \<longrightarrow> teardown b s = s) \<and>
         (rect_width (containerRect env) \<le> 0 \<or> rect_height (containerRect env) \<le> 0 \<longrightarrow>
            running (run env es (mount p env)) = None \<and>
            teardown b (run env es (mount p env)) = run env es (mount p env)) \<and>
         (running s = Some old \<longrightarrow>
            cleanup True old = Inr (old\<lparr>canvasAttached := False, world := []\<rparr>) \<and>
            cleanup False old = Inr (old\<lparr>world := []\<rparr>) \<and>
            cleanup_twice b False old = cleanup b old \<and>
            cleanup_twice True True old = Inl NotFoundError) \<and>
         thrown (teardown b s) = None \<and> running (teardown b s) = None \<and>
         teardown b' (teardown b s) = teardown b s \<and>
         thrown (teardown b' (teardown b s)) = None \<and>
         (running (runPhysicsEffect env' p' st ini (teardown b' (teardown b s))) = Some sess \<longrightarrow>
            worldBodies (world sess) =
              [floorBody (rect_width (containerRect env')) (rect_height (containerRect env')),
               leftWall (rect_width (containerRect env')) (rect_height (containerRect env')),
               rightWall (rect_width (containerRect env')) (rect_height (containerRect env')),
               ceilingBody (rect_width (containerRect env')) (rect_height (containerRect env'))]
              @ map wbody (wordBodies sess) \<and>
            map elem (wordBodies sess) = [0..<length (innerHTML s)] \<and>
            length (world sess) = 5 + length (innerHTML s))"
proof -
  have t: "thrown (teardown b s) = None" by (rule reachable_teardown_thrown [OF assms])
  have deg: "running (run env es (mount p env)) = None \<and>
            teardown b (run env es (mount p env)) = run env es (mount p env)"
    if "rect_width (containerRect env) \<le> 0 \<or> rect_height (containerRect env) \<le> 0"
  proof -
    from that have d: "degenerate env" by (simp add: degenerate_def)
    from mount_degenerate [OF d, of p] have "running (mount p env) = None" by simp
    from run_degenerate [OF d this, of es] show ?thesis by simp
  qed
  have cl: "cleanup True old = Inr (old\<lparr>canvasAttached := False, world := []\<rparr>) \<and>
            cleanup False old = Inr (old\<lparr>world := []\<rparr>) \<and>
            cleanup_twice b False old = cleanup b old \<and>
            cleanup_twice True True old = Inl NotFoundError"
    if "running s = Some old"
    using cleanup_attached [OF reachable_canvasAttached [OF assms that]] by blast
  have reb: "worldBodies (world sess) =
              [floorBody (rect_width (containerRect env')) (rect_height (containerRect env')),
               leftWall (rect_width (containerRect env')) (rect_height (containerRect env')),
               rightWall (rect_width (containerRect env')) (rect_height (containerRect env')),
               ceilingBody (rect_width (containerRect env')) (rect_height (containerRect env'))]
              @ map wbody (wordBodies sess) \<and>
            map elem (wordBodies sess) = [0..<length (innerHTML s)] \<and>
            length (world sess) = 5 + length (innerHTML s)"
    if r: "running (runPhysicsEffect env' p' st ini (teardown b' (teardown b s))) = Some sess"
  proof -
    let ?t = "teardown b' (teardown b s)"
    have n: "running ?t = None" by simp
    from runPhysicsEffect_running [OF n r]
    obtain made where
      pe: "physicsEffect p' st ini (refsOf env' ?t) (random env') (drawn ?t) = (made, Started sess)"
      by blast
    from pe obtain c rects where h: "st" "ini" "containerRef (refsOf env' ?t) = Some c"
      "0 < rect_width c" "0 < rect_height c" "textRef (refsOf env' ?t) = Some rects"
      by (rule physicsEffect_Started_cases)
    from physicsEffect_started [OF h(3,4,5,6), of p' "random env'" "drawn ?t"] h(1,2) pe
    have w: "length (world sess) = 5 + length rects" by auto
    from physicsEffect_wordBodies [OF pe] h(3,6)
    have "wordBodies sess = makeWordBodies c (random env') (drawn ?t) 0 rects"
      "worldBodies (world sess) =
         [floorBody (rect_width c) (rect_height c), leftWall (rect_width c) (rect_height c),
          rightWall (rect_width c) (rect_height c), ceilingBody (rect_width c) (rect_height c)]
           @ map wbody (wordBodies sess)"
      by auto
    moreover from h(3,6) have "c = containerRect env'" "length rects = length (innerHTML s)"
      by (auto simp: refsOf_def)
    ultimately show ?thesis using w by (simp add: map_elem_makeWordBodies)
  qed
  have a1: "running s = None \<longrightarrow> teardown b s = s" by simp
  have a2: "running (teardown b s) = None" by simp
  have a3: "teardown b' (teardown b s) = teardown b s" by (rule teardown_twice)
  have a4: "thrown (teardown b' (teardown b s)) = None" using t by (simp only: a3)
  from a1 deg cl t a2 a3 a4 reb show ?thesis by blast
qed

text \<open>
  The mounted example with the trigger "auto": a session runs; one call of its cleanup
  function raises nothing, nor does a second call with the ref cleared; React's teardown,
  twice, raises nothing, and the session rebuilt afterwards has eight world entries (four
  boundaries, the constraint, three words). Under the flat layout teardown is the identity.
\<close>

theorem teardown_safe_cleanup_once_witness:
  "reachable (mount auto_props example_env) \<and>
   running (mount auto_props example_env) \<noteq> None \<and>
   map_option (isl \<circ> cleanup True) (running (mount auto_props example_env)) = Some False \<and>
   map_option (isl \<circ> cleanup_twice True False) (running (mount auto_props example_env)) =
     Some False \<and>
   thrown (teardown True (mount auto_props example_env)) = None \<and>
   teardown True (teardown True (mount auto_props example_env)) =
     teardown True (mount auto_props example_env) \<and>
   rect_height (containerRect flat_env) \<le> 0 \<and>
   teardown True (mount auto_props flat_env) = mount auto_props flat_env \<and>
   map_option (\<lambda>sess. (length (world sess), map elem (wordBodies sess)))
     (running (runPhysicsEffect example_env auto_props True True
        (teardown True (teardown True (mount auto_props example_env))))) =
     Some (8, [0, 1, 2])"
proof -
  let ?m = "mount auto_props example_env"
  have t: "trigger auto_props = ''auto''" by (simp add: auto_props_def)
  from mount_auto_started [OF t example_layout]
  obtain sess0 where
    m: "running ?m = Some sess0" "innerHTML ?m = wordSpans toLowerCase auto_props"
    by blast
  have l: "length (innerHTML ?m) = 3" by (simp add: m(2) length_wordSpans words_auto)
  let ?t = "teardown True (teardown True ?m)"
  from runPhysicsEffect_started [of True True example_env auto_props ?t] example_layout
  obtain made sess where
    "runPhysicsEffect example_env auto_props True True ?t =
       ?t\<lparr>created := created ?t @ made, running := Some sess,
         drawn := drawn ?t + 2 * length (innerHTML ?t),
         physicsDeps := Some (physicsDepsOf auto_props True True)\<rparr>"
    by blast
  then have s: "running (runPhysicsEffect example_env auto_props True True ?t) = Some sess"
    by simp
  have f: "rect_width (containerRect flat_env) \<le> 0 \<or> rect_height (containerRect flat_env) \<le> 0"
    by (simp add: flat_env_def)
  note ts = teardown_safe_cleanup_once [where s = ?m
      and b = True and b' = True and env = flat_env and es = "[]" and p = auto_props
      and old = sess0
      and env' = example_env and p' = auto_props and st = True and ini = True and sess = sess,
      OF reachable_mount]
  from ts have c2: "thrown (teardown True ?m) = None" by (elim conjE)
  from ts have "running ?m = Some sess0 \<longrightarrow>
      cleanup True sess0 = Inr (sess0\<lparr>canvasAttached := False, world := []\<rparr>) \<and>
      cleanup False sess0 = Inr (sess0\<lparr>world := []\<rparr>) \<and>
      cleanup_twice True False sess0 = cleanup True sess0 \<and>
      cleanup_twice True True sess0 = Inl NotFoundError"
    by (elim conjE)
  with m(1) have k: "cleanup True sess0 = Inr (sess0\<lparr>canvasAttached := False, world := []\<rparr>)"
    "cleanup_twice True False sess0 = cleanup True sess0"
    by blast+
  have c4: "map_option (isl \<circ> cleanup True) (running ?m) = Some False"
    by (simp add: m(1) k(1))
  have c5: "map_option (isl \<circ> cleanup_twice True False) (running ?m) = Some False"
    by (simp add: m(1) k)
  from ts have "rect_width (containerRect flat_env) \<le> 0 \<or>
      rect_height (containerRect flat_env) \<le> 0 \<longrightarrow>
        running (run flat_env [] (mount auto_props flat_env)) = None \<and>
        teardown True (run flat_env [] (mount auto_props flat_env)) =
          run flat_env [] (mount auto_props flat_env)"
    by (elim conjE)
  with f have c6: "teardown True (mount auto_props flat_env) = mount auto_props flat_env"
    by simp
  from ts have "running (runPhysicsEffect example_env auto_props True True ?t) = Some sess
      \<longrightarrow>
        worldBodies (world sess) =
          [floorBody (rect_width (containerRect example_env))
             (rect_height (containerRect example_env)),
           leftWall (rect_width (containerRect example_env))
             (rect_height (containerRect example_env)),
           rightWall (rect_width (containerRect example_env))
             (rect_height (containerRect example_env)),
           ceilingBody (rect_width (containerRect example_env))
             (rect_height (containerRect example_env))]
          @ map wbody (wordBodies sess) \<and>
        map elem (wordBodies sess) = [0..<length (innerHTML ?m)] \<and>
        length (world sess) = 5 + length (innerHTML ?m)"
    by (elim conjE)
  with s have "map elem (wordBodies sess) = [0..<length (innerHTML ?m)]"
    "length (world sess) = 5 + length (innerHTML ?m)"
    by blast+
  then have c7: "map elem (wordBodies sess) = [0, 1, 2]" "length (world sess) = 8"
    by (simp_all add: l upt_conv_Cons)
  have fl: "rect_height (containerRect flat_env) \<le> 0" by (simp add: flat_env_def)
  have c1: "running ?m \<noteq> None" by (simp add: m(1))
  have c3: "teardown True (teardown True ?m) = teardown True ?m" by (rule teardown_twice)
  have c8: "map_option (\<lambda>sess. (length (world sess), map elem (wordBodies sess)))
     (running (runPhysicsEffect example_env auto_props True True ?t)) = Some (8, [0, 1, 2])"
    by (simp only: s option.map c7)
  from reachable_mount c1 c4 c5 c2 c3 fl c6 c8 show ?thesis by (intro conjI)
qed


section \<open>Manual triggers (click, hover)\<close>

text \<open>
  C5. With the trigger "click" or "hover" the instance is idle after mounting: not
  activated, nothing allocated. In every reachable state the bound event (a click, a
  mouse-over) leaves the instance activated, and every further such event, once or \<open>n\<close>
  times and under any layout, changes nothing at all. The first event starts the session
  when no render is pending and the container has a positive width and height.
\<close>

theorem manual_trigger_activates_once:
  assumes "matching (trigger (cur_props s)) e" and "reachable s"
  shows "(trigger p = ''click'' \<or> trigger p = ''hover'' \<longrightarrow>
            \<not> effectStarted (mount p menv) \<and> created (mount p menv) = [] \<and>
            running (mount p menv) = None) \<and>
         effectStarted (step env e s) \<and>
         step env' e (step env e s) = step env e s \<and>
         run env' (replicate n e) (step env e s) = step env e s \<and>
         (\<not> due s \<and> \<not> effectStarted s \<and> 0 < rect_width (containerRect env) \<and>
            0 < rect_height (containerRect env) \<longrightarrow> running (step env e s) \<noteq> None)"
proof -
  have i: "\<not> effectStarted (mount p menv) \<and> created (mount p menv) = [] \<and>
            running (mount p menv) = None"
    if "trigger p = ''click'' \<or> trigger p = ''hover''"
  proof -
    from that have "trigger p \<noteq> ''auto''" "trigger p \<noteq> ''scroll''" by auto
    from mount_manual [OF this] show ?thesis by (simp add: initial_def)
  qed
  have t: "thrown s = None" by (rule reachable_thrown [OF assms(2)])
  have a: "effectStarted (step env e s)" by (rule matching_started [OF assms(1) t])
  have m: "matching (trigger (cur_props (step env e s))) e"
    using assms(1) by (cases e) (auto simp: matching_def)
  have b: "step env' e (step env e s) = step env e s"
    by (rule matching_inert [OF m a step_not_due])
  from i a b run_replicate_inert [OF b, of n] matching_session [OF assms(1,2), of env]
  show ?thesis by blast
qed

text \<open>
  The example, whose trigger is "hover": idle after mounting, active with a session after
  the first mouse-over, unchanged by the second.
\<close>

theorem manual_trigger_activates_once_witness:
  "matching (trigger (cur_props (mount example_props example_env))) MouseOver \<and>
   reachable (mount example_props example_env) \<and>
   \<not> effectStarted (mount example_props example_env) \<and>
   effectStarted (step example_env MouseOver (mount example_props example_env)) \<and>
   step example_env MouseOver (step example_env MouseOver (mount example_props example_env)) =
     step example_env MouseOver (mount example_props example_env) \<and>
   running (step example_env MouseOver (mount example_props example_env)) \<noteq> None"
proof -
  let ?m = "mount example_props example_env"
  have tr: "trigger example_props \<noteq> ''auto''" "trigger example_props \<noteq> ''scroll''"
    by (simp_all add: example_props_def)
  have m: "matching (trigger (cur_props ?m)) MouseOver"
    by (simp add: matching_def example_props_def)
  note th = manual_trigger_activates_once [where s = ?m and e = MouseOver
      and env = example_env and env' = example_env and n = 1 and p = example_props
      and menv = example_env, OF m reachable_mount]
  from th have "trigger example_props = ''click'' \<or> trigger example_props = ''hover'' \<longrightarrow>
      \<not> effectStarted ?m \<and> created ?m = [] \<and> running ?m = None"
    by (elim conjE)
  then have ns: "\<not> effectStarted ?m" by (simp add: example_props_def)
  from th have a: "effectStarted (step example_env MouseOver ?m)" by (elim conjE)
  from th have b: "step example_env MouseOver (step example_env MouseOver ?m) =
      step example_env MouseOver ?m"
    by (elim conjE)
  from th have "\<not> due ?m \<and> \<not> effectStarted ?m \<and>
      0 < rect_width (containerRect example_env) \<and>
      0 < rect_height (containerRect example_env) \<longrightarrow>
        running (step example_env MouseOver ?m) \<noteq> None"
    by (elim conjE)
  with mount_not_due ns example_layout
  have c: "running (step example_env MouseOver ?m) \<noteq> None" by blast
  from m reachable_mount ns a b c show ?thesis by (intro conjI)
qed


section \<open>The scroll trigger\<close>

text \<open>
  C6. With the trigger "scroll" the mounted instance is idle and observes the container.
  After the notifications \<open>rs\<close> of the observer it is activated if and only if some
  visible fraction in \<open>rs\<close> was at least 0.1, and it still observes if and only if none
  was; as long as none was, the state is the mounted state, with nothing allocated; once
  one was, no further notification changes the state, and the session runs when the
  container has a positive width and height.
\<close>

theorem scroll_trigger_activates_once:
  assumes "trigger p = ''scroll''"
  shows "\<not> effectStarted (mount p env) \<and> observing (mount p env) \<and>
         effectStarted (run env (map Intersection rs) (mount p env)) =
           (\<exists>r\<in>set rs. 1 / 10 \<le> r) \<and>
         observing (run env (map Intersection rs) (mount p env)) = (\<forall>r\<in>set rs. r < 1 / 10) \<and>
         ((\<forall>r\<in>set rs. r < 1 / 10) \<longrightarrow>
            run env (map Intersection rs) (mount p env) = mount p env \<and>
            created (mount p env) = [] \<and> running (mount p env) = None) \<and>
         ((\<exists>r\<in>set rs. 1 / 10 \<le> r) \<longrightarrow>
            run env' (map Intersection rs') (run env (map Intersection rs) (mount p env)) =
              run env (map Intersection rs) (mount p env)) \<and>
         ((\<exists>r\<in>set rs. 1 / 10 \<le> r) \<and> 0 < rect_width (containerRect env) \<and>
            0 < rect_height (containerRect env) \<longrightarrow>
              running (run env (map Intersection rs) (mount p env)) \<noteq> None)"
proof -
  let ?m = "mount p env"
  have m: "observing ?m" "\<not> effectStarted ?m" "thrown ?m = None" "created ?m = []"
    "running ?m = None"
    by (simp_all add: mount_scroll [OF assms] initial_def)
  have nd: "\<not> due ?m" by (simp add: mount_def settle_not_due)
  note r = run_intersections [OF m(1,2) nd reachable_mount, of env rs]
  have nd': "\<not> due (run env (map Intersection rs) ?m)"
    by (rule run_not_due [OF nd])
  have "run env' (map Intersection rs') (run env (map Intersection rs) ?m) =
          run env (map Intersection rs) ?m"
    if "\<exists>r\<in>set rs. 1 / 10 \<le> r"
  proof -
    from that r have "\<not> observing (run env (map Intersection rs) ?m)" by auto
    then show ?thesis using nd' by (rule run_intersections_disconnected)
  qed
  with r m show ?thesis by simp
qed

text \<open>
  Fractions 0 and 0.05 leave the example idle and observing; 0.3 activates it, starts the
  session and disconnects the observer; the later fractions 1, 0 and 1 change nothing.
\<close>

theorem scroll_trigger_activates_once_witness:
  "trigger scroll_props = ''scroll'' \<and>
   \<not> effectStarted (run example_env (map Intersection [0, 1 / 20])
       (mount scroll_props example_env)) \<and>
   observing (run example_env (map Intersection [0, 1 / 20]) (mount scroll_props example_env)) \<and>
   effectStarted (run example_env (map Intersection [0, 1 / 20, 3 / 10, 0])
       (mount scroll_props example_env)) \<and>
   \<not> observing (run example_env (map Intersection [0, 1 / 20, 3 / 10, 0])
       (mount scroll_props example_env)) \<and>
   run example_env (map Intersection [1, 0, 1])
       (run example_env (map Intersection [0, 1 / 20, 3 / 10, 0])
          (mount scroll_props example_env)) =
     run example_env (map Intersection [0, 1 / 20, 3 / 10, 0])
       (mount scroll_props example_env) \<and>
   running (run example_env (map Intersection [0, 1 / 20, 3 / 10, 0])
       (mount scroll_props example_env)) \<noteq> None"
proof -
  have t: "trigger scroll_props = ''scroll''" by (simp add: scroll_props_def)
  note lo = scroll_trigger_activates_once [OF t, where env = example_env
      and rs = "[0, 1 / 20]" and env' = example_env and rs' = "[]"]
  note hi = scroll_trigger_activates_once [OF t, where env = example_env
      and rs = "[0, 1 / 20, 3 / 10, 0]" and env' = example_env and rs' = "[1, 0, 1]"]
  let ?lo = "run example_env (map Intersection [0, 1 / 20]) (mount scroll_props example_env)"
  let ?hi = "run example_env (map Intersection [0, 1 / 20, 3 / 10, 0])
       (mount scroll_props example_env)"
  from lo have "effectStarted ?lo = (\<exists>r\<in>set [0, 1 / 20]. 1 / 10 \<le> (r::real))"
    by (elim conjE)
  then have a1: "\<not> effectStarted ?lo" by simp
  from lo have "observing ?lo = (\<forall>r\<in>set [0, 1 / 20]. (r::real) < 1 / 10)"
    by (elim conjE)
  then have a2: "observing ?lo" by simp
  from hi have "effectStarted ?hi = (\<exists>r\<in>set [0, 1 / 20, 3 / 10, 0]. 1 / 10 \<le> (r::real))"
    by (elim conjE)
  then have b1: "effectStarted ?hi" by simp
  from hi have "observing ?hi = (\<forall>r\<in>set [0, 1 / 20, 3 / 10, 0]. (r::real) < 1 / 10)"
    by (elim conjE)
  then have b2: "\<not> observing ?hi" by simp
  from hi have "(\<exists>r\<in>set [0, 1 / 20, 3 / 10, 0]. 1 / 10 \<le> (r::real)) \<longrightarrow>
      run example_env (map Intersection [1, 0, 1]) ?hi = ?hi"
    by (elim conjE)
  then have c: "run example_env (map Intersection [1, 0, 1]) ?hi = ?hi" by simp
  from hi have "(\<exists>r\<in>set [0, 1 / 20, 3 / 10, 0]. 1 / 10 \<le> (r::real)) \<and>
      0 < rect_width (containerRect example_env) \<and>
      0 < rect_height (containerRect example_env) \<longrightarrow> running ?hi \<noteq> None"
    by (elim conjE)
  with example_layout have d: "running ?hi \<noteq> None" by simp
  from t a1 a2 b1 b2 c d show ?thesis by (intro conjI)
qed


section \<open>Boundaries\<close>

text \<open>
  C7. A run of the physics effect that starts a session creates exactly four static
  bodies, the same four that it adds to the world: the floor centred at
  (width / 2, height + 25), 50 thick and as wide as the container, its top edge on the
  container's bottom edge; the ceiling centred at (width / 2, -25), its bottom edge on
  the container's top edge; the left wall centred at (-25, height / 2) and the right
  wall at (width + 25, height / 2), 50 thick and as high as the container, their inner
  edges on the container's left and right edges.
\<close>

theorem four_boundaries_outside_edges:
  assumes "physicsEffect p st ini d rnd k = (made, Started sess)"
    and "containerRef d = Some c" and "w = rect_width c" and "h = rect_height c"
  shows "filter isStatic (bodiesOf made) =
           [floorBody w h, leftWall w h, rightWall w h, ceilingBody w h] \<and>
         filter isStatic (worldBodies (world sess)) =
           [floorBody w h, leftWall w h, rightWall w h, ceilingBody w h] \<and>
         floorBody w h = boundary (w / 2) (h + 25) w 50 \<and>
         ceilingBody w h = boundary (w / 2) (- 25) w 50 \<and>
         leftWall w h = boundary (- 25) (h / 2) 50 h \<and>
         rightWall w h = boundary (w + 25) (h / 2) 50 h \<and>
         body_top (floorBody w h) = h \<and> body_left (floorBody w h) = 0 \<and>
         body_right (floorBody w h) = w \<and>
         body_bottom (ceilingBody w h) = 0 \<and> body_left (ceilingBody w h) = 0 \<and>
         body_right (ceilingBody w h) = w \<and>
         body_right (leftWall w h) = 0 \<and> body_top (leftWall w h) = 0 \<and>
         body_bottom (leftWall w h) = h \<and>
         body_left (rightWall w h) = w \<and> body_top (rightWall w h) = 0 \<and>
         body_bottom (rightWall w h) = h"
proof -
  from physicsEffect_wordBodies [OF assms(1)] assms(2,3,4)
  obtain rects where
    r: "wordBodies sess = makeWordBodies c rnd k 0 rects"
      "worldBodies (world sess) =
         [floorBody w h, leftWall w h, rightWall w h, ceilingBody w h]
           @ map wbody (wordBodies sess)"
      "bodiesOf made = worldBodies (world sess)"
    by auto
  have st: "filter isStatic [floorBody w h, leftWall w h, rightWall w h, ceilingBody w h] =
              [floorBody w h, leftWall w h, rightWall w h, ceilingBody w h]"
    by (simp add: floorBody_def leftWall_def rightWall_def ceilingBody_def boundary_def)
  have a: "filter isStatic (worldBodies (world sess)) =
             [floorBody w h, leftWall w h, rightWall w h, ceilingBody w h]"
    unfolding r(2) filter_append st by (simp add: r(1))
  have e: "body_top (floorBody w h) = h" "body_left (floorBody w h) = 0"
    "body_right (floorBody w h) = w"
    "body_bottom (ceilingBody w h) = 0" "body_left (ceilingBody w h) = 0"
    "body_right (ceilingBody w h) = w"
    "body_right (leftWall w h) = 0" "body_top (leftWall w h) = 0"
    "body_bottom (leftWall w h) = h"
    "body_left (rightWall w h) = w" "body_top (rightWall w h) = 0"
    "body_bottom (rightWall w h) = h"
    by (simp_all add: floorBody_def leftWall_def rightWall_def ceilingBody_def boundary_def
        body_top_def body_bottom_def body_left_def body_right_def)
  from a r(3) e show ?thesis
    by (simp add: floorBody_def leftWall_def rightWall_def ceilingBody_def)
qed

lemma example_refs_started:
  "\<exists>made sess. physicsEffect example_props True True example_refs example_random 0 =
     (made, Started sess)"
  using physicsEffect_started [of example_refs "containerRect example_env"
      "map (wordRect example_env) [0, 1, 2]" example_props example_random 0]
  by (simp add: example_refs_def example_env_def)

text \<open>
  For the container of 300 by 100: the floor at (150, 125), the left wall at (-25, 50),
  the right wall at (325, 50), the ceiling at (150, -25).
\<close>

theorem four_boundaries_outside_edges_witness:
  "containerRef example_refs = Some (containerRect example_env) \<and>
   filter isStatic (bodiesOf (fst (physicsEffect example_props True True example_refs
     example_random 0))) =
     [boundary 150 125 300 50, boundary (- 25) 50 50 100, boundary 325 50 50 100,
      boundary 150 (- 25) 300 50]"
proof -
  from example_refs_started obtain made sess where
    s: "physicsEffect example_props True True example_refs example_random 0 = (made, Started sess)"
    by blast
  have c: "containerRef example_refs = Some (containerRect example_env)"
    by (simp add: example_refs_def)
  have w: "300 = rect_width (containerRect example_env)"
    and h: "100 = rect_height (containerRect example_env)"
    by (simp_all add: example_env_def)
  from four_boundaries_outside_edges [OF s c w h]
  have "filter isStatic (bodiesOf made) =
          [boundary (300 / 2) (100 + 25) 300 50, boundary (- 25) (100 / 2) 50 100,
           boundary (300 + 25) (100 / 2) 50 100, boundary (300 / 2) (- 25) 300 50]"
    by simp
  with s c show ?thesis by simp
qed


section \<open>Initial velocities\<close>

text \<open>
  C8. The \<open>i\<close>-th token body of a session gets its velocities from two draws of its own,
  the draws \<open>k + 2 i\<close> and \<open>k + 2 i + 1\<close> of the random sequence: the horizontal velocity is
  (draw - 0.5) * 5, the vertical velocity is 0, the angular velocity is
  (draw - 0.5) * 0.05. For draws in [0, 1), as \<open>Math.random()\<close> gives them, the horizontal
  velocity lies in [-2.5, 2.5] and the angular velocity in [-0.025, 0.025]; both are
  affine in the draw, so they are uniformly distributed when the draws are. The body is
  among the allocating calls and in the world.
\<close>

theorem initial_jitter_ranges:
  assumes "physicsEffect p st ini d rnd k = (made, Started sess)"
    and "i < length (wordBodies sess)"
    and "0 \<le> rnd (k + 2 * i)" and "rnd (k + 2 * i) < 1"
    and "0 \<le> rnd (Suc (k + 2 * i))" and "rnd (Suc (k + 2 * i)) < 1"
    and "b = wbody (wordBodies sess ! i)"
  shows "velocity_x b = (rnd (k + 2 * i) - 5 / 10) * 5 \<and>
         - (25 / 10) \<le> velocity_x b \<and> velocity_x b \<le> 25 / 10 \<and>
         velocity_y b = 0 \<and>
         angularVelocity b = (rnd (Suc (k + 2 * i)) - 5 / 10) * (5 / 100) \<and>
         - (25 / 1000) \<le> angularVelocity b \<and> angularVelocity b \<le> 25 / 1000 \<and>
         BodyItem b \<in> set (world sess) \<and> Bodies_rectangle b \<in> set made"
proof -
  from physicsEffect_wordBodies [OF assms(1)]
  obtain c rects where
    r: "wordBodies sess = makeWordBodies c rnd k 0 rects"
      "worldBodies (world sess) =
         [floorBody (rect_width c) (rect_height c), leftWall (rect_width c) (rect_height c),
          rightWall (rect_width c) (rect_height c), ceilingBody (rect_width c) (rect_height c)]
           @ map wbody (wordBodies sess)"
      "bodiesOf made = worldBodies (world sess)"
    by blast
  from assms(2) r(1) have i: "i < length rects" by simp
  from nth_makeWordBodies [OF i, of c rnd k 0] r(1) assms(7)
  have b: "b = wordBody c (rects ! i) (rnd (k + 2 * i)) (rnd (Suc (k + 2 * i)))"
    by simp
  have v: "velocity_x b = (rnd (k + 2 * i) - 5 / 10) * 5" "velocity_y b = 0"
    "angularVelocity b = (rnd (Suc (k + 2 * i)) - 5 / 10) * (5 / 100)"
    by (simp_all add: b wordBody_def)
  from assms(3,4) v(1) have vx: "- (25 / 10) \<le> velocity_x b" "velocity_x b \<le> 25 / 10"
    by simp_all
  from assms(5,6) v(3) have av: "- (25 / 1000) \<le> angularVelocity b"
    "angularVelocity b \<le> 25 / 1000"
    by simp_all
  from assms(2,7) have "b \<in> set (map wbody (wordBodies sess))" by simp
  then have m: "b \<in> set (worldBodies (world sess))" "b \<in> set (bodiesOf made)"
    by (simp_all add: r(2,3))
  have "BodyItem b \<in> set ws" if "b \<in> set (worldBodies ws)" for ws
    using that by (induction ws) (auto simp: worldBodies_def split: world_item.splits)
  moreover have "Bodies_rectangle b \<in> set rs" if "b \<in> set (bodiesOf rs)" for rs
    using that by (induction rs) (auto simp: bodiesOf_def split: resource.splits)
  ultimately show ?thesis using v vx av m by blast
qed

text \<open>
  With the draws 0.9 and 0.1 each of the three bodies gets the velocity (2, 0) and the
  angular velocity -0.02.
\<close>

theorem initial_jitter_ranges_witness:
  "map_option (\<lambda>sess. map (\<lambda>wb. (velocity_x (wbody wb), velocity_y (wbody wb),
       angularVelocity (wbody wb))) (wordBodies sess))
     (case snd (physicsEffect example_props True True example_refs example_random 0) of
        Started sess \<Rightarrow> Some sess | _ \<Rightarrow> None) =
     Some [(2, 0, - (1 / 50)), (2, 0, - (1 / 50)), (2, 0, - (1 / 50))]"
proof -
  from example_refs_started obtain made sess where
    s: "physicsEffect example_props True True example_refs example_random 0 =
          (made, Started sess)"
    by blast
  from physicsEffect_wordBodies [OF s]
  have l: "length (wordBodies sess) = Suc (Suc (Suc 0))" by (auto simp: example_refs_def)
  have "velocity_x (wbody (wordBodies sess ! i)) = 2 \<and>
        velocity_y (wbody (wordBodies sess ! i)) = 0 \<and>
        angularVelocity (wbody (wordBodies sess ! i)) = - (1 / 50)"
    if "i < Suc (Suc (Suc 0))" for i
    using initial_jitter_ranges [OF s, of i "wbody (wordBodies sess ! i)"] that l
    by (simp add: example_random_def)
  from this [of 0] this [of "Suc 0"] this [of "Suc (Suc 0)"] l
  have "map (\<lambda>wb. (velocity_x (wbody wb), velocity_y (wbody wb),
          angularVelocity (wbody wb))) (wordBodies sess) =
          [(2, 0, - (1 / 50)), (2, 0, - (1 / 50)), (2, 0, - (1 / 50))]"
    by (intro nth_equalityI) (auto simp: less_Suc_eq)
  with s show ?thesis by simp
qed


section \<open>Markup before physics\<close>



end
